theory Spec2Isabelle
  imports Main
begin

section \<open>Python strings\<close>

text \<open>
  A Python \<open>str\<close> is modelled as a \<open>string\<close>. The three patterns that
  \<open>clean_url\<close> removes are ASCII, so working on the bytes of the UTF-8 form removes
  the same occurrences as working on code points.
\<close>

fun startswith :: "string \<Rightarrow> string \<Rightarrow> bool" where
  "startswith s [] = True"
| "startswith [] (p # ps) = False"
| "startswith (c # cs) (p # ps) = (c = p \<and> startswith cs ps)"

text \<open>
  \<open>s.replace(old, new)\<close> for a non-empty \<open>old\<close>: one scan from the left; where
  \<open>old\<close> starts, \<open>new\<close> is written and the scan resumes behind the occurrence
  (the text written is never scanned again); elsewhere one character is copied.
  Every non-overlapping occurrence is replaced, not only a leading one.
  With an empty \<open>old\<close> Python writes \<open>new\<close> before every character and at the end.
\<close>

fun replace :: "string \<Rightarrow> string \<Rightarrow> string \<Rightarrow> string" where
  "replace [] old new = (if old = [] then new else [])"
| "replace (c # cs) old new =
     (if old = [] then new @ c # replace cs old new
      else if startswith (c # cs) old then new @ replace (drop (length old - 1) cs) old new
      else c # replace cs old new)"

text \<open>\<open>old in s\<close>: the pattern occurs somewhere in the string.\<close>

fun contains :: "string \<Rightarrow> string \<Rightarrow> bool" where
  "contains [] old = (old = [])"
| "contains (c # cs) old = (startswith (c # cs) old \<or> contains cs old)"

text \<open>\<open>sep.join(xs)\<close>.\<close>

fun join :: "string \<Rightarrow> string list \<Rightarrow> string" where
  "join sep [] = []"
| "join sep [x] = x"
| "join sep (x # y # ys) = x @ sep @ join sep (y # ys)"

section \<open>URL cleaning\<close>

text \<open>
  The local function of \<open>generate_resume\<close>:
  \<^verbatim>\<open>url.replace("https://", "").replace("http://", "").replace("www.", "")\<close>
\<close>

definition clean_url :: "string \<Rightarrow> string" where
  "clean_url url = replace (replace (replace url ''https://'' '''') ''http://'' '''') ''www.'' ''''"

text \<open>
  The reading of the specification, for comparison: each of the three patterns is
  stripped once, and only where it is a prefix of what is left.
\<close>

definition strip_prefix_once :: "string \<Rightarrow> string \<Rightarrow> string" where
  "strip_prefix_once p s = (if startswith s p then drop (length p) s else s)"

definition clean_url_prefix_spec :: "string \<Rightarrow> string" where
  "clean_url_prefix_spec url =
     strip_prefix_once ''www.'' (strip_prefix_once ''http://'' (strip_prefix_once ''https://'' url))"

section \<open>Errors and lookups\<close>

text \<open>
  The code defines no exception class of its own and validates nothing up front: a
  malformed record shows as the \<open>KeyError\<close> of a missing dictionary key or the
  \<open>IndexError\<close> of an index into a list that is too short, raised where the value
  is read. \<open>ValueError\<close> is what the \<open>Paragraph\<close> constructor of the layout
  library raises on a text whose markup it cannot parse. \<open>RenderError\<close> stands for any
  exception that leaves \<open>Table\<close>, \<open>setStyle\<close> or \<open>doc.build\<close>.
\<close>

datatype error = KeyError string | IndexError | ValueError | RenderError

text \<open>\<open>d[key]\<close> on a dictionary whose entry for \<open>key\<close> may be absent.\<close>

definition getitem :: "string \<Rightarrow> 'a option \<Rightarrow> error + 'a" where
  "getitem key entry = (case entry of None \<Rightarrow> Inl (KeyError key) | Some v \<Rightarrow> Inr v)"

text \<open>\<open>xs[i]\<close> on a list, for the indices 0 and 1 that the code uses.\<close>

definition index :: "'a list \<Rightarrow> nat \<Rightarrow> error + 'a" where
  "index xs i = (if i < length xs then Inr (xs ! i) else Inl IndexError)"

text \<open>Sequencing of expressions that may raise: the first error wins.\<close>

definition bindE :: "error + 'a \<Rightarrow> ('a \<Rightarrow> error + 'b) \<Rightarrow> error + 'b" where
  "bindE m f = (case m of Inl e \<Rightarrow> Inl e | Inr v \<Rightarrow> f v)"

section \<open>The resume record\<close>

text \<open>
  The record is what \<open>utils.read_yaml\<close> returns: nested dictionaries and lists.
  Values have the types of the data model; every dictionary key may be absent
  (\<open>None\<close>), and every list may be empty. Field names are the dictionary keys,
  prefixed by a letter for the dictionary they belong to.
\<close>

record contact =
  c_email :: "string option"
  c_phone :: "string option"

record website =
  w_icon :: "string option"
  w_url :: "string option"

record basic =
  b_name :: "string option"
  b_contact :: "contact option"
  b_websites :: "website list option"
  b_address :: "string list option"

record title =
  t_name :: "string option"
  t_startdate :: "string option"
  t_enddate :: "string option"

record experience =
  j_company :: "string option"
  j_location :: "string option"
  j_titles :: "title list option"
  j_highlights :: "string list option"

record degree =
  d_names :: "string list option"

record education_entry =
  e_school :: "string option"
  e_degrees :: "degree list option"

text \<open>
  A skill group is a dictionary read by position: its keys in insertion order, the
  values a label (a string) or a list of skill names.
\<close>

datatype yaml = YStr string | YSeq "string list"

type_synonym skill_group = "(string \<times> yaml) list"

record resume =
  r_basic :: "basic option"
  r_debug :: "bool option"
  r_objective :: "string option"
  r_experiences :: "experience list option"
  r_education :: "education_entry list option"
  r_skills :: "skill_group list option"

text \<open>\<open>group[key]\<close> on a skill group.\<close>

definition group_getitem :: "skill_group \<Rightarrow> string \<Rightarrow> error + yaml" where
  "group_getitem grp key = getitem key (map_of grp key)"

text \<open>
  Iterating a Python string yields its characters. A \<open>string\<close> here holds UTF-8, so
  a character is a leading byte with the continuation bytes (\<open>0x80\<close> to \<open>0xBF\<close>)
  that follow it.
\<close>

definition is_continuation :: "char \<Rightarrow> bool" where
  "is_continuation c = (128 \<le> (of_char c :: nat) \<and> (of_char c :: nat) < 192)"

function characters :: "string \<Rightarrow> string list" where
  "characters [] = []"
| "characters (c # cs) =
     (c # takeWhile is_continuation cs) # characters (dropWhile is_continuation cs)"
  by pat_completeness auto
termination
  by (relation "measure length") (auto simp: length_dropWhile_le less_Suc_eq_le)

text \<open>What \<open>", ".join(v)\<close> iterates over.\<close>

fun py_iter :: "yaml \<Rightarrow> string list" where
  "py_iter (YSeq xs) = xs"
| "py_iter (YStr s) = characters s"

section \<open>Rows and style directives\<close>

text \<open>
  Modelled from the spec: \<open>PARAGRAPH_STYLES\<close> of \<open>resume_pdf_styles\<close>, which is not
  among the sources. It is the style registry of the configuration surface, with its
  fixed set of twelve names; a cell carries the name of its style.
\<close>

datatype paragraph_style =
  Style_name | Style_contact | Style_section | Style_objective
  | Style_company_heading | Style_company_duration | Style_company_title
  | Style_company_location | Style_bullet_points | Style_last_bullet_point
  | Style_education | Style_skills

text \<open>\<open>Paragraph(content, style)\<close> and \<open>Paragraph(content, bulletText=..., style=...)\<close>.\<close>

datatype cell =
  Paragraph (content: string) (style: paragraph_style) (bulletText: "string option")

text \<open>
  A style directive is a tuple \<open>(command, (col, row), (col, row), value ...)\<close>.
  The values in this code are integers, the float literal \<open>0.1\<close> and a colour; a
  preset directive may also carry a string.
\<close>

datatype dvalue = IntV int | FloatV string | ColorV string | StrV string

datatype directive =
  Directive (command: string) (start: "int \<times> int") (stop: "int \<times> int") (dvalues: "dvalue list")

text \<open>
  The rest of \<open>resume_pdf_styles\<close> that \<open>generate_resume\<close> reads is a parameter
  of the model: the default padding, the two preset directive lists, the name of the bold
  font, and the path that \<open>generate_doc_template\<close> returns beside the document
  template. \<open>repr_list\<close> is Python's \<open>str\<close> of a list of strings, which an
  f-string writes when a skill group's first value is a list.

  The layout library is a parameter as well. \<open>markup_ok\<close> says whether its paragraph
  parser accepts a text that contains markup (with the fonts registered as they are);
  \<open>build_ok\<close> says whether \<open>Table\<close>, \<open>setStyle\<close> and \<open>doc.build\<close> go through
  for a path, the rows and the directives.
\<close>

record env =
  DEFAULT_PADDING :: "int \<times> int"
  DEBUG_STYLE :: directive
  DOCUMENT_ALIGNMENT :: "directive list"
  FONT_NAMES_bold :: string
  generate_doc_template :: "string \<Rightarrow> string \<Rightarrow> string"
  repr_list :: "string list \<Rightarrow> string"
  markup_ok :: "string \<Rightarrow> bool"
  build_ok :: "string \<Rightarrow> cell list list \<Rightarrow> directive list \<Rightarrow> bool"

text \<open>
  \<open>Paragraph(...)\<close> parses its text as markup when it is constructed. A text without
  the characters \<open><\<close> and \<open>&\<close> holds no markup and is taken as it is; any other
  text is accepted or makes the constructor raise \<open>ValueError\<close>, as the parser decides.
\<close>

definition plain_text :: "string \<Rightarrow> bool" where
  "plain_text s = (CHR ''<'' \<notin> set s \<and> CHR ''&'' \<notin> set s)"

definition paragraph_ok :: "env \<Rightarrow> string \<Rightarrow> bool" where
  "paragraph_ok E text = (plain_text text \<or> markup_ok E text)"

definition new_paragraph :: "env \<Rightarrow> string \<Rightarrow> paragraph_style \<Rightarrow> string option \<Rightarrow> error + cell" where
  "new_paragraph E text sty bullet =
     (if paragraph_ok E text then Inr (Paragraph text sty bullet) else Inl ValueError)"

text \<open>A list comprehension whose element expression may raise: the first error ends it.\<close>

fun comprehension :: "('a \<Rightarrow> error + 'b) \<Rightarrow> 'a list \<Rightarrow> error + 'b list" where
  "comprehension f [] = Inr []"
| "comprehension f (x # xs) =
     (case f x of Inl e \<Rightarrow> Inl e
      | Inr y \<Rightarrow> (case comprehension f xs of Inl e \<Rightarrow> Inl e | Inr ys \<Rightarrow> Inr (y # ys)))"

text \<open>An f-string field \<open>{v}\<close>.\<close>

fun py_str :: "env \<Rightarrow> yaml \<Rightarrow> string" where
  "py_str E (YStr s) = s"
| "py_str E (YSeq xs) = repr_list E xs"

text \<open>The bullet glyph U+2022, in UTF-8.\<close>

definition BULLET :: string where
  "BULLET = [char_of (226 :: nat), char_of (128 :: nat), char_of (162 :: nat)]"

section \<open>The accumulator\<close>

text \<open>
  \<open>table_data\<close> and \<open>table_styles\<close> are the two lists that every function
  mutates in place. \<open>built\<close> is the effect of \<open>doc.build\<close>: the path, the rows and
  the directives of the document written, \<open>None\<close> as long as nothing was written.
  \<open>history\<close> is a ghost field that no branch reads: each return of
  \<open>_add_table_row\<close> (with the index it returns) and of
  \<open>_append_section_table_style\<close> logs the length of \<open>table_data\<close> and the
  contents of \<open>table_styles\<close> at that moment.
\<close>

record build_state =
  table_data :: "cell list list"
  table_styles :: "directive list"
  built :: "(string \<times> cell list list \<times> directive list) option"
  history :: "(int option \<times> nat \<times> directive list) list"

definition log_call :: "int option \<Rightarrow> build_state \<Rightarrow> build_state" where
  "log_call returned st =
     st\<lparr>history := history st @ [(returned, length (table_data st), table_styles st)]\<rparr>"

text \<open>
  A statement sequence: it reads and changes the accumulator and either returns a value
  or raises; the accumulator it leaves behind is kept in both cases.
\<close>

type_synonym 'a action = "build_state \<Rightarrow> (error + 'a) \<times> build_state"

definition ret :: "'a \<Rightarrow> 'a action" where
  "ret v st = (Inr v, st)"

definition eval :: "error + 'a \<Rightarrow> 'a action" where
  "eval m st = (m, st)"

definition andthen :: "'a action \<Rightarrow> ('a \<Rightarrow> 'b action) \<Rightarrow> 'b action" where
  "andthen m f st = (case m st of (Inl e, st') \<Rightarrow> (Inl e, st') | (Inr v, st') \<Rightarrow> f v st')"

text \<open>
  A \<open>for\<close> loop whose body assigns \<open>row_index\<close>: the index is threaded through
  the iterations, and an error in the body ends the loop.
\<close>

fun for_loop :: "'a list \<Rightarrow> (int \<Rightarrow> 'a \<Rightarrow> int action) \<Rightarrow> int \<Rightarrow> int action" where
  "for_loop [] body row_index = ret row_index"
| "for_loop (x # xs) body row_index = andthen (body row_index x) (for_loop xs body)"

definition enumerate_list :: "'a list \<Rightarrow> (nat \<times> 'a) list" where
  "enumerate_list xs = zip [0..<length xs] xs"

section \<open>The row primitives\<close>

definition append_section_table_style :: "int \<Rightarrow> unit action" where
  "append_section_table_style row_index st =
     (Inr (),
      log_call None
        (st\<lparr>table_styles := table_styles st @
           [Directive ''TOPPADDING'' (0, row_index) (1, row_index) [IntV 5],
            Directive ''BOTTOMPADDING'' (0, row_index) (1, row_index) [IntV 2],
            Directive ''LINEBELOW'' (0, row_index) (- 1, row_index)
              [FloatV ''0.1'', ColorV ''black'']]\<rparr>))"

text \<open>\<open>if bullet_point:\<close> holds for a string that is neither \<open>None\<close> nor empty.\<close>

definition truthy :: "string option \<Rightarrow> bool" where
  "truthy b = (case b of None \<Rightarrow> False | Some s \<Rightarrow> s \<noteq> [])"

text \<open>
  \<open>_add_table_row\<close>. The cells of the row are constructed first; if a constructor
  raises, nothing has been appended and nothing is logged. Note that \<open>padding[0]\<close> is
  the bottom padding and \<open>padding[1]\<close> the top padding. The index returned is the
  argument plus one, whatever the length of \<open>table_data\<close> is.
\<close>

definition add_table_row ::
  "env \<Rightarrow> int \<Rightarrow> (string \<times> paragraph_style) list \<Rightarrow> bool \<Rightarrow> int \<times> int \<Rightarrow> string option
     \<Rightarrow> int action"
where
  "add_table_row E row_index content_style_map span padding bullet_point st =
     (case (if truthy bullet_point
            then comprehension (\<lambda>(c, s). new_paragraph E c s bullet_point) content_style_map
            else comprehension (\<lambda>(c, s). new_paragraph E c s None) content_style_map) of
        Inl e \<Rightarrow> (Inl e, st)
      | Inr row \<Rightarrow>
     (let st1 = st\<lparr>table_data := table_data st @ [row]\<rparr>;
          st2 = st1\<lparr>table_styles := table_styles st1 @
                  [Directive ''BOTTOMPADDING'' (0, row_index) (- 1, row_index) [IntV (fst padding)],
                   Directive ''TOPPADDING'' (0, row_index) (- 1, row_index) [IntV (snd padding)]]\<rparr>;
          st3 = (if span
                 then st2\<lparr>table_styles := table_styles st2 @
                        [Directive ''SPAN'' (0, row_index) (1, row_index) []]\<rparr>
                 else st2)
      in (Inr (row_index + 1), log_call (Some (row_index + 1)) st3)))"

section \<open>The sections\<close>

text \<open>The body of the loop over \<open>enumerate(job["highlights"])\<close>.\<close>

definition highlight_body :: "env \<Rightarrow> string list \<Rightarrow> int \<Rightarrow> nat \<times> string \<Rightarrow> int action" where
  "highlight_body E highlights row_index ib =
     (case ib of (i, bullet_point) \<Rightarrow>
        (let style = (if int i = int (length highlights) - 1
                      then Style_last_bullet_point else Style_bullet_points);
             padding = (if int i = int (length highlights) - 1 then (5, 1) else (0, 1))
         in add_table_row E row_index [(bullet_point, style)] True padding (Some BULLET)))"

text \<open>
  The body of the loop over \<open>enumerate(experiences)\<close>. The arguments of a call are
  evaluated before the call, so a missing key raises before the row of that call is
  appended and after the rows of the calls before it.
\<close>

definition experience_body :: "env \<Rightarrow> int \<Rightarrow> nat \<times> experience \<Rightarrow> int action" where
  "experience_body E row_index ij =
     (case ij of (idx, job) \<Rightarrow>
        andthen (eval
          (bindE (getitem ''titles'' (j_titles job)) (\<lambda>ts. bindE (index ts 0) (\<lambda>t.
           bindE (getitem ''startdate'' (t_startdate t)) (\<lambda>startdate.
           bindE (getitem ''titles'' (j_titles job)) (\<lambda>ts. bindE (index ts 0) (\<lambda>t.
           bindE (getitem ''enddate'' (t_enddate t)) (\<lambda>enddate.
           Inr (startdate @ ''-'' @ enddate)))))))))
        (\<lambda>duration.
        andthen (eval (getitem ''company'' (j_company job))) (\<lambda>company.
        andthen (add_table_row E row_index
                   [(company, Style_company_heading), (duration, Style_company_duration)]
                   False (DEFAULT_PADDING E) None)
        (\<lambda>row_index.
        andthen (eval
          (bindE (getitem ''titles'' (j_titles job)) (\<lambda>ts. bindE (index ts 0) (\<lambda>t.
           getitem ''name'' (t_name t)))))
        (\<lambda>title_name.
        andthen (eval (getitem ''location'' (j_location job))) (\<lambda>location.
        andthen (add_table_row E row_index
                   [(title_name, Style_company_title), (location, Style_company_location)]
                   False (DEFAULT_PADDING E) None)
        (\<lambda>row_index.
        andthen (eval (getitem ''highlights'' (j_highlights job))) (\<lambda>highlights.
        for_loop (enumerate_list highlights) (highlight_body E highlights) row_index))))))))"

definition add_experiences :: "env \<Rightarrow> int \<Rightarrow> experience list \<Rightarrow> int action" where
  "add_experiences E row_index experiences =
     andthen (add_table_row E row_index [(''Experience'', Style_section)]
                True (DEFAULT_PADDING E) None)
     (\<lambda>row_index.
     andthen (append_section_table_style (row_index - 1)) (\<lambda>_.
     for_loop (enumerate_list experiences) (experience_body E) row_index))"

text \<open>The body of the loop over \<open>education\<close>.\<close>

definition education_body :: "env \<Rightarrow> int \<Rightarrow> education_entry \<Rightarrow> int action" where
  "education_body E row_index edu =
     andthen (eval
       (bindE (getitem ''degrees'' (e_degrees edu)) (\<lambda>ds. bindE (index ds 0) (\<lambda>d.
        bindE (getitem ''names'' (d_names d)) (\<lambda>ns. Inr (join '', '' ns))))))
     (\<lambda>degrees.
     andthen (eval (getitem ''school'' (e_school edu))) (\<lambda>school.
     add_table_row E row_index
       [(''<font name='' @ [CHR 0x27] @ FONT_NAMES_bold E @ [CHR 0x27] @ ''>'' @ school
           @ ''</font>, '' @ degrees, Style_education)]
       True (DEFAULT_PADDING E) None))"

definition add_education :: "env \<Rightarrow> int \<Rightarrow> education_entry list \<Rightarrow> int action" where
  "add_education E row_index education =
     andthen (add_table_row E row_index [(''Education'', Style_section)]
                True (DEFAULT_PADDING E) None)
     (\<lambda>row_index.
     andthen (append_section_table_style (row_index - 1)) (\<lambda>_.
     for_loop education (education_body E) row_index))"

text \<open>The body of the loop over \<open>skills\<close>.\<close>

definition skill_body :: "env \<Rightarrow> int \<Rightarrow> skill_group \<Rightarrow> int action" where
  "skill_body E row_index grp =
     (let group_keys = map fst grp in
      andthen (eval (bindE (index group_keys 0) (group_getitem grp))) (\<lambda>skill_type.
      andthen (eval (bindE (index group_keys 1) (group_getitem grp))) (\<lambda>skills_list.
      let skills_str = join '', '' (py_iter skills_list);
          formatted_skills =
            ''<font name='' @ [CHR 0x27] @ FONT_NAMES_bold E @ [CHR 0x27] @ ''>''
              @ py_str E skill_type @ ''</font>: '' @ skills_str
      in add_table_row E row_index [(formatted_skills, Style_skills)] True (2, 2) None)))"

definition add_skills :: "env \<Rightarrow> int \<Rightarrow> skill_group list \<Rightarrow> int action" where
  "add_skills E row_index skills =
     andthen (add_table_row E row_index [(''Skills'', Style_section)]
                True (DEFAULT_PADDING E) None)
     (\<lambda>row_index.
     andthen (append_section_table_style (row_index - 1)) (\<lambda>_.
     for_loop skills (skill_body E) row_index))"

section \<open>The document\<close>

text \<open>
  \<open>next((clean_url(site["url"]) for site in websites if site["icon"] == icon), "")\<close>:
  the sites are read in order up to the first match.
\<close>

fun first_site :: "string \<Rightarrow> website list \<Rightarrow> error + string" where
  "first_site wanted [] = Inr ''''"
| "first_site wanted (site # sites) =
     bindE (getitem ''icon'' (w_icon site)) (\<lambda>icon.
       if icon = wanted
       then bindE (getitem ''url'' (w_url site)) (\<lambda>url. Inr (clean_url url))
       else first_site wanted sites)"

definition extend_styles :: "directive list \<Rightarrow> unit action" where
  "extend_styles ds st = (Inr (), st\<lparr>table_styles := table_styles st @ ds\<rparr>)"

text \<open>
  \<open>Table(table_data, ...)\<close>, \<open>table.setStyle(TableStyle(table_styles))\<close> and
  \<open>doc.build([table])\<close>: the layout library writes the document or raises, and then
  nothing counts as written.
\<close>

definition doc_build :: "env \<Rightarrow> string \<Rightarrow> unit action" where
  "doc_build E pdf_location st =
     (if build_ok E pdf_location (table_data st) (table_styles st)
      then (Inr (), st\<lparr>built := Some (pdf_location, table_data st, table_styles st)\<rparr>)
      else (Inl RenderError, st))"

text \<open>
  The accumulator at the point where \<open>generate_resume\<close> starts: nothing is written, and
  the two lists, which the code creates empty after the header fields are read, hold
  nothing.
\<close>

definition initial :: build_state where
  "initial = \<lparr>table_data = [], table_styles = [], built = None, history = []\<rparr>"

definition generate_resume :: "env \<Rightarrow> string \<Rightarrow> resume \<Rightarrow> (error + string) \<times> build_state" where
  "generate_resume E job_data_location data =
     (andthen (eval
        (bindE (getitem ''basic'' (r_basic data)) (\<lambda>b.
         bindE (getitem ''contact'' (b_contact b)) (\<lambda>c. getitem ''email'' (c_email c)))))
      (\<lambda>email.
      andthen (eval
        (bindE (getitem ''basic'' (r_basic data)) (\<lambda>b. getitem ''name'' (b_name b))))
      (\<lambda>name.
      andthen (eval
        (bindE (getitem ''basic'' (r_basic data)) (\<lambda>b.
         bindE (getitem ''contact'' (b_contact b)) (\<lambda>c. getitem ''phone'' (c_phone c)))))
      (\<lambda>phone.
      andthen (eval
        (bindE (getitem ''basic'' (r_basic data)) (\<lambda>b.
         bindE (getitem ''websites'' (b_websites b)) (first_site ''linkedin''))))
      (\<lambda>linkedin.
      andthen (eval
        (bindE (getitem ''basic'' (r_basic data)) (\<lambda>b.
         bindE (getitem ''websites'' (b_websites b)) (first_site ''github''))))
      (\<lambda>github.
      andthen (eval
        (bindE (getitem ''basic'' (r_basic data)) (\<lambda>b.
         bindE (getitem ''address'' (b_address b)) (\<lambda>a. Inr (join '', '' a)))))
      (\<lambda>address.
      let pdf_location = generate_doc_template E name job_data_location;
          row_index = 0
      in
      andthen (extend_styles
        (if (case r_debug data of None \<Rightarrow> False | Some d \<Rightarrow> d) then [DEBUG_STYLE E] else []))
      (\<lambda>_.
      andthen (extend_styles (DOCUMENT_ALIGNMENT E)) (\<lambda>_.
      andthen (add_table_row E row_index [(name, Style_name)] True (DEFAULT_PADDING E) None)
      (\<lambda>row_index.
      andthen (add_table_row E row_index
                 [(email @ '' | '' @ phone @ '' | '' @ linkedin @ '' | '' @ github
                     @ '' | '' @ address, Style_contact)]
                 True (DEFAULT_PADDING E) None)
      (\<lambda>row_index.
      andthen (add_table_row E row_index [(''Objective'', Style_section)]
                 True (DEFAULT_PADDING E) None)
      (\<lambda>row_index.
      andthen (append_section_table_style (row_index - 1)) (\<lambda>_.
      andthen (eval (getitem ''objective'' (r_objective data))) (\<lambda>objective.
      andthen (add_table_row E row_index [(objective, Style_objective)]
                 True (DEFAULT_PADDING E) None)
      (\<lambda>row_index.
      andthen (eval (getitem ''experiences'' (r_experiences data))) (\<lambda>experiences.
      andthen (add_experiences E row_index experiences) (\<lambda>row_index.
      andthen (eval (getitem ''education'' (r_education data))) (\<lambda>education.
      andthen (add_education E row_index education) (\<lambda>row_index.
      andthen (eval (getitem ''skills'' (r_skills data))) (\<lambda>skills.
      andthen (add_skills E row_index skills) (\<lambda>row_index.
      andthen (doc_build E pdf_location) (\<lambda>_.
      ret pdf_location)))))))))))))))))))))) initial"

section \<open>Notions used in the statements\<close>

text \<open>A string in which none of the three patterns of \<open>clean_url\<close> occurs.\<close>

definition pattern_free :: "string \<Rightarrow> bool" where
  "pattern_free s =
     (\<not> contains s ''https://'' \<and> \<not> contains s ''http://'' \<and> \<not> contains s ''www.'')"

text \<open>
  One pass that removes a pattern \<open>p\<close>, said without the scan: a string in which \<open>p\<close>
  does not occur is left as it is; otherwise the leftmost occurrence (the one before
  which, together with all but the last character of \<open>p\<close>, no occurrence fits) is
  deleted, and the pass goes on with what stands behind it. What has been passed is not
  looked at again.
\<close>

inductive pass_result :: "string \<Rightarrow> string \<Rightarrow> string \<Rightarrow> bool" for p :: string where
  absent: "\<not> contains s p \<Longrightarrow> pass_result p s s"
| leftmost: "\<not> contains (a @ butlast p) p \<Longrightarrow> pass_result p b out
     \<Longrightarrow> pass_result p (a @ p @ b) (a @ out)"

text \<open>
  The directives of a section heading at row \<open>r\<close>: those of \<open>_add_table_row\<close> for a
  spanning row with the default padding, then the underline of
  \<open>_append_section_table_style\<close>.
\<close>

definition section_heading_styles :: "env \<Rightarrow> int \<Rightarrow> directive list" where
  "section_heading_styles E r =
     [Directive ''BOTTOMPADDING'' (0, r) (- 1, r) [IntV (fst (DEFAULT_PADDING E))],
      Directive ''TOPPADDING'' (0, r) (- 1, r) [IntV (snd (DEFAULT_PADDING E))],
      Directive ''SPAN'' (0, r) (1, r) [],
      Directive ''TOPPADDING'' (0, r) (1, r) [IntV 5],
      Directive ''BOTTOMPADDING'' (0, r) (1, r) [IntV 2],
      Directive ''LINEBELOW'' (0, r) (- 1, r) [FloatV ''0.1'', ColorV ''black'']]"

text \<open>The list under a key, nothing where the key is absent.\<close>

definition entries :: "'a list option \<Rightarrow> 'a list" where
  "entries v = (case v of None \<Rightarrow> [] | Some xs \<Rightarrow> xs)"

subsection \<open>Valid records\<close>

text \<open>
  A record in which every key that \<open>generate_resume\<close> reads is present and every list
  that it indexes is long enough: a first title, a first degree entry, two keys in a
  skill group, whose keys are distinct as those of a dictionary are. A list of highlights
  may be empty.
\<close>

definition valid_title :: "title \<Rightarrow> bool" where
  "valid_title t = (t_name t \<noteq> None \<and> t_startdate t \<noteq> None \<and> t_enddate t \<noteq> None)"

definition valid_experience :: "experience \<Rightarrow> bool" where
  "valid_experience job =
     (j_company job \<noteq> None \<and> j_location job \<noteq> None \<and> j_highlights job \<noteq> None
      \<and> (case j_titles job of Some (t # ts) \<Rightarrow> valid_title t | _ \<Rightarrow> False))"

definition valid_education_entry :: "education_entry \<Rightarrow> bool" where
  "valid_education_entry edu =
     (e_school edu \<noteq> None
      \<and> (case e_degrees edu of Some (d # ds) \<Rightarrow> d_names d \<noteq> None | _ \<Rightarrow> False))"

definition valid_skill_group :: "skill_group \<Rightarrow> bool" where
  "valid_skill_group grp = (2 \<le> length grp \<and> distinct (map fst grp))"

definition valid_website :: "website \<Rightarrow> bool" where
  "valid_website site = (w_icon site \<noteq> None \<and> w_url site \<noteq> None)"

definition valid_basic :: "basic \<Rightarrow> bool" where
  "valid_basic b =
     (b_name b \<noteq> None
      \<and> (case b_contact b of None \<Rightarrow> False
          | Some c \<Rightarrow> c_email c \<noteq> None \<and> c_phone c \<noteq> None)
      \<and> (case b_websites b of None \<Rightarrow> False | Some ws \<Rightarrow> list_all valid_website ws)
      \<and> b_address b \<noteq> None)"

definition valid_resume :: "resume \<Rightarrow> bool" where
  "valid_resume data =
     ((case r_basic data of None \<Rightarrow> False | Some b \<Rightarrow> valid_basic b)
      \<and> r_objective data \<noteq> None
      \<and> (case r_experiences data of None \<Rightarrow> False | Some xs \<Rightarrow> list_all valid_experience xs)
      \<and> (case r_education data of None \<Rightarrow> False
          | Some xs \<Rightarrow> list_all valid_education_entry xs)
      \<and> (case r_skills data of None \<Rightarrow> False | Some xs \<Rightarrow> list_all valid_skill_group xs))"

subsection \<open>The texts and rows of a valid record\<close>

text \<open>
  The cell texts that the code computes from a valid record, each as the source's
  expression for it. The section headings are constants and plain.
\<close>

definition first_title :: "experience \<Rightarrow> title" where
  "first_title job = hd (entries (j_titles job))"

definition duration :: "experience \<Rightarrow> string" where
  "duration job = the (t_startdate (first_title job)) @ ''-'' @ the (t_enddate (first_title job))"

definition experience_texts :: "experience \<Rightarrow> string list" where
  "experience_texts job =
     [the (j_company job), duration job, the (t_name (first_title job)), the (j_location job)]
     @ entries (j_highlights job)"

definition education_text :: "env \<Rightarrow> education_entry \<Rightarrow> string" where
  "education_text E edu =
     ''<font name='' @ [CHR 0x27] @ FONT_NAMES_bold E @ [CHR 0x27] @ ''>'' @ the (e_school edu)
       @ ''</font>, '' @ join '', '' (entries (d_names (hd (entries (e_degrees edu)))))"

text \<open>The text of a skill row: it reads the values at the first two keys and no other.\<close>

definition skill_text :: "env \<Rightarrow> skill_group \<Rightarrow> string" where
  "skill_text E grp =
     ''<font name='' @ [CHR 0x27] @ FONT_NAMES_bold E @ [CHR 0x27] @ ''>''
       @ py_str E (snd (grp ! 0)) @ ''</font>: '' @ join '', '' (py_iter (snd (grp ! 1)))"

definition site_url :: "string \<Rightarrow> website list \<Rightarrow> string" where
  "site_url wanted sites = (case first_site wanted sites of Inl e \<Rightarrow> [] | Inr url \<Rightarrow> url)"

definition contact_line :: "basic \<Rightarrow> string" where
  "contact_line b =
     the (c_email (the (b_contact b))) @ '' | '' @ the (c_phone (the (b_contact b))) @ '' | ''
       @ site_url ''linkedin'' (entries (b_websites b)) @ '' | ''
       @ site_url ''github'' (entries (b_websites b)) @ '' | ''
       @ join '', '' (entries (b_address b))"

definition resume_texts :: "env \<Rightarrow> resume \<Rightarrow> string list" where
  "resume_texts E data =
     [the (b_name (the (r_basic data))), contact_line (the (r_basic data)),
      the (r_objective data)]
     @ concat (map experience_texts (entries (r_experiences data)))
     @ map (education_text E) (entries (r_education data))
     @ map (skill_text E) (entries (r_skills data))"

text \<open>No \<open>Paragraph\<close> constructor raises on a text of the record.\<close>

definition texts_accepted :: "env \<Rightarrow> resume \<Rightarrow> bool" where
  "texts_accepted E data = list_all (paragraph_ok E) (resume_texts E data)"

text \<open>
  The rows and directives of the highlights of one job, from row \<open>r\<close> on: the last
  highlight has the style \<open>last_bullet_point\<close> and the bottom padding 5, every earlier
  one the style \<open>bullet_points\<close> and the bottom padding 0.
\<close>

definition highlight_rows :: "string list \<Rightarrow> cell list list" where
  "highlight_rows hs =
     map (\<lambda>i. [Paragraph (hs ! i)
             (if Suc i = length hs then Style_last_bullet_point else Style_bullet_points)
             (Some BULLET)]) [0..<length hs]"

definition highlight_styles :: "int \<Rightarrow> string list \<Rightarrow> directive list" where
  "highlight_styles r hs =
     concat (map (\<lambda>i.
       [Directive ''BOTTOMPADDING'' (0, r + int i) (- 1, r + int i)
          [IntV (if Suc i = length hs then 5 else 0)],
        Directive ''TOPPADDING'' (0, r + int i) (- 1, r + int i) [IntV 1],
        Directive ''SPAN'' (0, r + int i) (1, r + int i) []]) [0..<length hs])"

text \<open>The rows and directives of one job, and the directives of a list of jobs.\<close>

definition experience_rows :: "experience \<Rightarrow> cell list list" where
  "experience_rows job =
     [[Paragraph (the (j_company job)) Style_company_heading None,
       Paragraph (duration job) Style_company_duration None],
      [Paragraph (the (t_name (first_title job))) Style_company_title None,
       Paragraph (the (j_location job)) Style_company_location None]]
     @ highlight_rows (entries (j_highlights job))"

definition experience_styles :: "env \<Rightarrow> int \<Rightarrow> experience \<Rightarrow> directive list" where
  "experience_styles E r job =
     [Directive ''BOTTOMPADDING'' (0, r) (- 1, r) [IntV (fst (DEFAULT_PADDING E))],
      Directive ''TOPPADDING'' (0, r) (- 1, r) [IntV (snd (DEFAULT_PADDING E))],
      Directive ''BOTTOMPADDING'' (0, r + 1) (- 1, r + 1) [IntV (fst (DEFAULT_PADDING E))],
      Directive ''TOPPADDING'' (0, r + 1) (- 1, r + 1) [IntV (snd (DEFAULT_PADDING E))]]
     @ highlight_styles (r + 2) (entries (j_highlights job))"

fun experiences_styles :: "env \<Rightarrow> int \<Rightarrow> experience list \<Rightarrow> directive list" where
  "experiences_styles E r [] = []"
| "experiences_styles E r (job # jobs) =
     experience_styles E r job
     @ experiences_styles E (r + 2 + int (length (entries (j_highlights job)))) jobs"

definition total_highlights :: "experience list \<Rightarrow> nat" where
  "total_highlights experiences =
     sum_list (map (\<lambda>job. length (entries (j_highlights job))) experiences)"

text \<open>The directives of the skill rows, one spanning row with padding \<open>(2, 2)\<close> each.\<close>

definition skill_styles :: "int \<Rightarrow> nat \<Rightarrow> directive list" where
  "skill_styles r n =
     concat (map (\<lambda>i.
       [Directive ''BOTTOMPADDING'' (0, r + int i) (- 1, r + int i) [IntV 2],
        Directive ''TOPPADDING'' (0, r + int i) (- 1, r + int i) [IntV 2],
        Directive ''SPAN'' (0, r + int i) (1, r + int i) []]) [0..<n])"

subsection \<open>Row counts\<close>

text \<open>
  The number of rows as the specification counts them, with three rows per experience
  beside its highlights.
\<close>

definition claimed_row_count :: "resume \<Rightarrow> nat" where
  "claimed_row_count data =
     2 + 2
     + (1 + 3 * length (entries (r_experiences data))
          + total_highlights (entries (r_experiences data)))
     + (1 + length (entries (r_education data)))
     + (1 + length (entries (r_skills data)))"

text \<open>
  The number of rows that the code appends: an experience has a company row and a title
  row beside its highlights.
\<close>

definition row_count :: "resume \<Rightarrow> nat" where
  "row_count data =
     2 + 2
     + (1 + 2 * length (entries (r_experiences data))
          + total_highlights (entries (r_experiences data)))
     + (1 + length (entries (r_education data)))
     + (1 + length (entries (r_skills data)))"

subsection \<open>Missing keys\<close>



subsection \<open>The invariant\<close>

text \<open>
  A directive whose two row coordinates lie below the number \<open>n\<close> of rows; a negative
  coordinate counts rows from the end.
\<close>

definition rows_in_range :: "nat \<Rightarrow> directive \<Rightarrow> bool" where
  "rows_in_range n d = (snd (start d) < int n \<and> snd (stop d) < int n)"

text \<open>
  What the invariant asks of one logged return: all directives in range of the rows
  appended so far, and the index returned by \<open>_add_table_row\<close> equal to their number.
\<close>

definition snapshot_ok :: "int option \<times> nat \<times> directive list \<Rightarrow> bool" where
  "snapshot_ok snap =
     (case snap of (returned, n, styles) \<Rightarrow>
        list_all (rows_in_range n) styles
        \<and> (case returned of None \<Rightarrow> True | Some r \<Rightarrow> r = int n))"

definition presets_in_range :: "env \<Rightarrow> bool" where
  "presets_in_range E = list_all (rows_in_range 1) (DEBUG_STYLE E # DOCUMENT_ALIGNMENT E)"

text \<open>Whether a run ended in an error.\<close>

definition failed :: "(error + 'a) \<times> build_state \<Rightarrow> bool" where
  "failed out = isl (fst out)"

text \<open>A run that ended in an error without a document having been written.\<close>

definition aborted :: "(error + 'a) \<times> build_state \<Rightarrow> bool" where
  "aborted out = (failed out \<and> built (snd out) = None)"

text \<open>
  The invariant of the accumulator: every directive refers to rows that exist, and every
  logged return was in order.
\<close>

definition consistent :: "build_state \<Rightarrow> bool" where
  "consistent st =
     (list_all (rows_in_range (length (table_data st))) (table_styles st)
      \<and> list_all snapshot_ok (history st))"

text \<open>
  The outcome of a step that threads the row index: the invariant holds, and an index
  that is returned is the number of rows.
\<close>

definition kept :: "(error + int) \<times> build_state \<Rightarrow> bool" where
  "kept out =
     (case out of
        (Inl e, st) \<Rightarrow> consistent st
      | (Inr r, st) \<Rightarrow> consistent st \<and> r = int (length (table_data st)))"

text \<open>
  An accumulator in which the invariant holds, or to which no row has been appended yet
  and of which no helper has returned.
\<close>

definition settled :: "build_state \<Rightarrow> bool" where
  "settled st = (consistent st \<or> (table_data st = [] \<and> history st = []))"

subsection \<open>Example inputs\<close>

text \<open>
  A layout library that accepts the bold-font markup which the code itself writes
  around plain text, and that builds every document.
\<close>

definition example_markup :: "string \<Rightarrow> bool" where
  "example_markup s =
     (let tag = ''<font name='' @ [CHR 0x27] @ ''Bold'' @ [CHR 0x27] @ ''>'';
          rest = drop (length tag) s;
          inner = replace rest ''</font>'' ''''
      in startswith s tag \<and> contains rest ''</font>''
         \<and> length inner + length ''</font>'' = length rest \<and> plain_text inner)"

definition example_env :: env where
  "example_env =
     \<lparr>DEFAULT_PADDING = (1, 1),
      DEBUG_STYLE = Directive ''GRID'' (0, 0) (- 1, - 1) [IntV 0, ColorV ''black''],
      DOCUMENT_ALIGNMENT = [Directive ''ALIGN'' (0, 0) (- 1, - 1) [StrV ''LEFT'']],
      FONT_NAMES_bold = ''Bold'',
      generate_doc_template = (\<lambda>name location. location @ ''/'' @ name @ ''.pdf''),
      repr_list = (\<lambda>xs. ''['' @ join '', '' (map (\<lambda>x. [CHR 0x27] @ x @ [CHR 0x27]) xs) @ '']''),
      markup_ok = example_markup,
      build_ok = (\<lambda>path rows styles. True)\<rparr>"

definition example_experience :: experience where
  "example_experience =
     \<lparr>j_company = Some ''Acme'', j_location = Some ''Oslo'',
      j_titles = Some [\<lparr>t_name = Some ''Engineer'', t_startdate = Some ''2020'',
                        t_enddate = Some ''2023''\<rparr>],
      j_highlights = Some [''Built it'']\<rparr>"

text \<open>The example job with other highlights.\<close>

definition example_job :: "string list \<Rightarrow> experience" where
  "example_job hs = example_experience\<lparr>j_highlights := Some hs\<rparr>"

definition example_basic :: basic where
  "example_basic =
     \<lparr>b_name = Some ''Ann'',
      b_contact = Some \<lparr>c_email = Some ''ann@example.org'', c_phone = Some ''555''\<rparr>,
      b_websites = Some [\<lparr>w_icon = Some ''linkedin'',
                          w_url = Some ''https://www.linkedin.com/in/x''\<rparr>],
      b_address = Some [''Oslo'', ''Norway'']\<rparr>"

definition example_resume :: resume where
  "example_resume =
     \<lparr>r_basic = Some example_basic,
      r_debug = None,
      r_objective = Some ''To build'',
      r_experiences = Some [example_experience],
      r_education = Some [\<lparr>e_school = Some ''NTNU'',
                            e_degrees = Some [\<lparr>d_names = Some [''BSc'', ''MSc'']\<rparr>]\<rparr>],
      r_skills = Some [[(''category'', YStr ''Languages''),
                        (''skills'', YSeq [''Go'', ''Rust''])]]\<rparr>"

section \<open>Properties of URL cleaning\<close>

lemma startswith_take: "startswith s p = (take (length p) s = p)"
  by (induction s p rule: startswith.induct) auto

lemma replace_absent: "old \<noteq> [] \<Longrightarrow> \<not> contains s old \<Longrightarrow> replace s old new = s"
  by (induction s) auto

lemma length_replace_le: "old \<noteq> [] \<Longrightarrow> length (replace s old []) \<le> length s"
proof (induction s old "[] :: string" rule: replace.induct)
  case (1 old)
  then show ?case by simp
next
  case (2 c cs old)
  then show ?case by (auto intro: le_trans[OF _ diff_le_self] le_SucI)
qed

lemma length_replace_less:
  "old \<noteq> [] \<Longrightarrow> contains s old \<Longrightarrow> length (replace s old []) < length s"
proof (induction s)
  case Nil
  then show ?case by simp
next
  case (Cons c cs)
  show ?case
  proof (cases "startswith (c # cs) old")
    case True
    have "length (replace (drop (length old - 1) cs) old []) \<le> length (drop (length old - 1) cs)"
      using Cons.prems(1) by (rule length_replace_le)
    then show ?thesis using True Cons.prems(1) by simp
  next
    case False
    then show ?thesis using Cons by simp
  qed
qed

text \<open>The leftmost occurrence is replaced wherever it stands, and the scan goes on behind it.\<close>

lemma replace_first:
  "old \<noteq> [] \<Longrightarrow> \<not> contains (a @ butlast old) old \<Longrightarrow>
   replace (a @ old @ b) old new = a @ new @ replace b old new"
proof (induction a)
  case Nil
  then show ?case
    by (cases old) (simp_all add: startswith_take)
next
  case (Cons c a)
  have "\<not> startswith (c # a @ butlast old) old" using Cons.prems by simp
  then have "\<not> startswith (c # a @ old @ b) old"
    using Cons.prems(1) by (cases old rule: rev_cases) (auto simp: startswith_take)
  then show ?case using Cons by simp
qed

lemma replace_once:
  "old \<noteq> [] \<Longrightarrow> \<not> contains (a @ butlast old) old \<Longrightarrow> \<not> contains b old \<Longrightarrow>
   replace (a @ old @ b) old [] = a @ b"
  by (simp add: replace_first replace_absent)

lemma contains_append_right: "contains b q \<Longrightarrow> contains (a @ b) q"
  by (induction a) auto

lemma clean_url_pattern_free: "pattern_free y \<Longrightarrow> clean_url y = y"
  by (simp add: pattern_free_def clean_url_def replace_absent)

lemma length_clean_url_less:
  assumes "\<not> pattern_free y"
  shows "length (clean_url y) < length y"
proof -
  let ?a = "replace y ''https://'' ''''"
  let ?b = "replace ?a ''http://'' ''''"
  have b: "length ?b \<le> length ?a" by (rule length_replace_le) simp
  have c: "length (replace ?b ''www.'' '''') \<le> length ?b" by (rule length_replace_le) simp
  show ?thesis
  proof (cases "contains y ''https://''")
    case True
    then have "length ?a < length y" by (intro length_replace_less) simp_all
    with b c show ?thesis by (simp add: clean_url_def)
  next
    case no_https: False
    then have ay: "?a = y" by (intro replace_absent) simp_all
    show ?thesis
    proof (cases "contains y ''http://''")
      case True
      then have "length ?b < length y" unfolding ay by (intro length_replace_less) simp_all
      with c show ?thesis by (simp add: clean_url_def)
    next
      case False
      then have by': "?b = y" unfolding ay by (intro replace_absent) simp_all
      from assms no_https False have "contains y ''www.''" by (simp add: pattern_free_def)
      then have "length (replace y ''www.'' '''') < length y"
        by (intro length_replace_less) simp_all
      then show ?thesis using by' by (simp add: clean_url_def)
    qed
  qed
qed

lemma clean_url_scheme_www:
  assumes "pattern_free rest"
  shows "clean_url (''https://'' @ rest) = rest" and "clean_url (''http://'' @ rest) = rest"
    and "clean_url (''www.'' @ rest) = rest" and "clean_url (''https://www.'' @ rest) = rest"
    and "clean_url (''http://www.'' @ rest) = rest"
  using assms by (simp_all add: clean_url_def pattern_free_def replace_absent)

text \<open>
  Claim C3, as stated: \<open>clean_url (clean_url x) = clean_url x\<close> for every string.
  It fails where removing an occurrence joins the text on both sides of it into a new
  occurrence: the pass over \<open>hthttp://tp://a\<close> leaves \<open>http://a\<close>, and a second call
  removes that as well.
\<close>

theorem clean_url_not_idempotent:
  "clean_url ''hthttp://tp://a'' = ''http://a''
   \<and> clean_url (clean_url ''hthttp://tp://a'') = ''a''"
  by (simp add: clean_url_def)

text \<open>
  Claim C3, amended: cleaning a cleaned URL changes nothing exactly when the cleaned URL
  contains none of the three patterns.
\<close>

theorem clean_url_idempotent_iff:
  "clean_url (clean_url x) = clean_url x \<longleftrightarrow> pattern_free (clean_url x)"
proof
  assume eq: "clean_url (clean_url x) = clean_url x"
  show "pattern_free (clean_url x)"
  proof (rule ccontr)
    assume "\<not> pattern_free (clean_url x)"
    then have "length (clean_url (clean_url x)) < length (clean_url x)"
      by (rule length_clean_url_less)
    with eq show False by simp
  qed
next
  assume "pattern_free (clean_url x)"
  then show "clean_url (clean_url x) = clean_url x" by (rule clean_url_pattern_free)
qed

theorem clean_url_idempotent_iff_witness:
  "pattern_free (clean_url ''https://www.linkedin.com/in/x'')
   \<and> clean_url (clean_url ''https://www.linkedin.com/in/x'') =
       clean_url ''https://www.linkedin.com/in/x''"
proof -
  have "pattern_free (clean_url ''https://www.linkedin.com/in/x'')"
    by (simp add: pattern_free_def clean_url_def)
  then show ?thesis
    using clean_url_idempotent_iff [of "''https://www.linkedin.com/in/x''"] by simp
qed

lemma startswith_length: "startswith s p \<Longrightarrow> length p \<le> length s"
  by (induction s p rule: startswith.induct) auto

lemma contains_length: "contains s p \<Longrightarrow> length p \<le> length s"
  by (induction s) (auto dest: startswith_length)

lemma leftmost_occurrence:
  "old \<noteq> [] \<Longrightarrow> contains s old \<Longrightarrow>
   \<exists>a b. s = a @ old @ b \<and> \<not> contains (a @ butlast old) old"
proof (induction s)
  case Nil
  then show ?case by simp
next
  case (Cons c cs)
  show ?case
  proof (cases "startswith (c # cs) old")
    case True
    then have "c # cs = [] @ old @ drop (length old) (c # cs)"
      by (simp add: startswith_take) (metis append_take_drop_id)
    moreover have "\<not> contains ([] @ butlast old) old"
    proof
      assume "contains ([] @ butlast old) old"
      then have "contains (butlast old) old" by simp
      from contains_length[OF this] have "length old \<le> length (butlast old)" .
      then show False using Cons.prems(1) by (cases old rule: rev_cases) auto
    qed
    ultimately show ?thesis by blast
  next
    case False
    with Cons.prems have "contains cs old" by simp
    from Cons.IH[OF Cons.prems(1) this] obtain a b where
      ab: "cs = a @ old @ b" "\<not> contains (a @ butlast old) old" by blast
    have "\<not> startswith (c # a @ butlast old) old"
      using False ab(1) Cons.prems(1)
      by (cases old rule: rev_cases) (auto simp: startswith_take)
    with ab have "c # cs = (c # a) @ old @ b \<and> \<not> contains ((c # a) @ butlast old) old"
      by simp
    then show ?thesis by blast
  qed
qed


lemma pass_result_replace:
  assumes "p \<noteq> []"
  shows "pass_result p s (replace s p [])"
proof (induction "length s" arbitrary: s rule: less_induct)
  case less
  show ?case
  proof (cases "contains s p")
    case False
    then show ?thesis by (simp add: replace_absent assms pass_result.absent)
  next
    case True
    from leftmost_occurrence[OF assms True] obtain a b where
      ab: "s = a @ p @ b" "\<not> contains (a @ butlast p) p" by blast
    have "length b < length s" using ab(1) assms by simp
    then have "pass_result p b (replace b p [])" by (rule less)
    with ab(2) have "pass_result p (a @ p @ b) (a @ replace b p [])"
      by (rule pass_result.leftmost)
    then show ?thesis using ab assms by (simp add: replace_first del: replace.simps)
  qed
qed

lemma pass_result_unique:
  assumes "p \<noteq> []" and "pass_result p s out"
  shows "out = replace s p []"
  using assms(2)
proof (induction rule: pass_result.induct)
  case (absent s)
  then show ?case by (simp add: replace_absent assms(1))
next
  case (leftmost a b out)
  then show ?case using assms(1) by (simp add: replace_first del: replace.simps)
qed

lemma pass_result_iff: "p \<noteq> [] \<Longrightarrow> pass_result p s out \<longleftrightarrow> out = replace s p []"
  using pass_result_replace pass_result_unique by blast

lemma clean_url_passes:
  "clean_url url = out \<longleftrightarrow>
     (\<exists>s1 s2. pass_result ''https://'' url s1 \<and> pass_result ''http://'' s1 s2
        \<and> pass_result ''www.'' s2 out)"
  by (auto simp: pass_result_iff clean_url_def)

text \<open>
  Claim C4, as stated: the three patterns are stripped as prefixes, each once, and
  further occurrences elsewhere in the string stay. The code removes a pattern wherever
  it occurs: \<open>www.\<close> in the path of a URL is removed as well.
\<close>

theorem clean_url_not_prefix_only:
  "clean_url ''http://a.com/www.b'' = ''a.com/b''
   \<and> clean_url_prefix_spec ''http://a.com/www.b'' = ''a.com/www.b''"
  by (simp add: clean_url_def clean_url_prefix_spec_def strip_prefix_once_def)

text \<open>
  Claim C4, amended: \<open>clean_url\<close> makes three passes in a fixed order, the first
  removing \<open>https://\<close>, the second \<open>http://\<close> from the result of the first, the
  third \<open>www.\<close> from the result of the second, and a pass removes every occurrence of
  its pattern, from left to right, wherever it stands; the result is determined by
  that. A URL made of a scheme, of \<open>www.\<close>, or of a scheme and \<open>www.\<close> in front of
  a rest without patterns is reduced to that rest;
  \<open>clean_url("https://www.linkedin.com/in/x")\<close> is \<open>linkedin.com/in/x\<close>.
\<close>

theorem clean_url_removes_patterns:
  "(clean_url url = out \<longleftrightarrow>
      (\<exists>s1 s2. pass_result ''https://'' url s1 \<and> pass_result ''http://'' s1 s2
         \<and> pass_result ''www.'' s2 out))
   \<and> (pattern_free rest \<longrightarrow>
        clean_url rest = rest
        \<and> clean_url (''https://'' @ rest) = rest \<and> clean_url (''http://'' @ rest) = rest
        \<and> clean_url (''www.'' @ rest) = rest
        \<and> clean_url (''https://www.'' @ rest) = rest
        \<and> clean_url (''http://www.'' @ rest) = rest)
   \<and> clean_url ''https://www.linkedin.com/in/x'' = ''linkedin.com/in/x''"
proof -
  have A: "clean_url url = out \<longleftrightarrow>
      (\<exists>s1 s2. pass_result ''https://'' url s1 \<and> pass_result ''http://'' s1 s2
         \<and> pass_result ''www.'' s2 out)"
    by (rule clean_url_passes)
  have B: "pattern_free rest \<longrightarrow>
        clean_url rest = rest
        \<and> clean_url (''https://'' @ rest) = rest \<and> clean_url (''http://'' @ rest) = rest
        \<and> clean_url (''www.'' @ rest) = rest
        \<and> clean_url (''https://www.'' @ rest) = rest
        \<and> clean_url (''http://www.'' @ rest) = rest"
    using clean_url_pattern_free[of rest] clean_url_scheme_www[of rest] by blast
  have C: "clean_url ''https://www.linkedin.com/in/x'' = ''linkedin.com/in/x''"
    by (simp add: clean_url_def)
  from A B C show ?thesis by (intro conjI)
qed

theorem clean_url_removes_patterns_witness:
  "pattern_free ''linkedin.com/in/x''
   \<and> clean_url (''https://www.'' @ ''linkedin.com/in/x'') = ''linkedin.com/in/x''
   \<and> clean_url ''httphttps://://x'' = ''x''
   \<and> (\<exists>s1 s2. pass_result ''https://'' ''httphttps://://x'' s1 \<and> pass_result ''http://'' s1 s2
         \<and> pass_result ''www.'' s2 ''x'')
   \<and> \<not> (\<exists>s1 s2. pass_result ''www.'' ''httphttps://://x'' s1 \<and> pass_result ''http://'' s1 s2
         \<and> pass_result ''https://'' s2 ''x'')"
proof -
  have p: "pattern_free ''linkedin.com/in/x''"
    by (simp add: pattern_free_def)
  have c1: "clean_url (''https://www.'' @ ''linkedin.com/in/x'') = ''linkedin.com/in/x''"
    using p clean_url_removes_patterns [of "''x''" "''x''" "''linkedin.com/in/x''"] by blast
  have c2: "clean_url ''httphttps://://x'' = ''x''"
    by (simp add: clean_url_def)
  have c3: "\<exists>s1 s2. pass_result ''https://'' ''httphttps://://x'' s1 \<and> pass_result ''http://'' s1 s2
         \<and> pass_result ''www.'' s2 ''x''"
    using c2 clean_url_removes_patterns [of "''httphttps://://x''" "''x''" "''x''"] by blast
  have c4: "\<not> (\<exists>s1 s2. pass_result ''www.'' ''httphttps://://x'' s1 \<and> pass_result ''http://'' s1 s2
         \<and> pass_result ''https://'' s2 ''x'')"
    by (simp add: pass_result_iff)
  show ?thesis by (intro conjI p c1 c2 c3 c4)
qed

section \<open>Running the statement sequences\<close>

lemma failed_simps [simp]: "failed (Inl e, st) = True" "failed (Inr v, st) = False"
  by (simp_all add: failed_def)

lemma ret_run [simp]: "ret v st = (Inr v, st)"
  by (simp add: ret_def)

lemma andthen_eval [simp]:
  "andthen (eval m) f st = (case m of Inl e \<Rightarrow> (Inl e, st) | Inr v \<Rightarrow> f v st)"
  by (simp add: andthen_def eval_def split: sum.split)

lemma andthen_ret: "andthen (ret v) f = f v"
  by (simp add: andthen_def fun_eq_iff)

lemma andthen_assoc: "andthen (andthen m g) f = andthen m (\<lambda>v. andthen (g v) f)"
  by (auto simp: andthen_def fun_eq_iff split: prod.splits sum.splits)

lemma andthen_ok:
  "\<not> failed (m st) \<Longrightarrow> andthen m f st = f (projr (fst (m st))) (snd (m st))"
  by (cases "m st") (auto simp: andthen_def failed_def split: sum.splits)

lemma getitem_Some [simp]: "getitem k (Some v) = Inr v"
  by (simp add: getitem_def)

lemma getitem_None [simp]: "getitem k None = Inl (KeyError k)"
  by (simp add: getitem_def)

lemma bindE_Inr [simp]: "bindE (Inr v) f = f v"
  by (simp add: bindE_def)

lemma bindE_Inl [simp]: "bindE (Inl e) f = Inl e"
  by (simp add: bindE_def)

lemma index_Cons_0 [simp]: "index (x # xs) 0 = Inr x"
  by (simp add: index_def)

lemma index_Nil [simp]: "index [] i = Inl IndexError"
  by (simp add: index_def)

lemma enumerate_list_Nil [simp]: "enumerate_list [] = []"
  by (simp add: enumerate_list_def)

subsection \<open>Constructing the cells\<close>

lemma paragraph_ok_plain: "plain_text s \<Longrightarrow> paragraph_ok E s"
  by (simp add: paragraph_ok_def)

lemma headings_ok [simp]:
  "paragraph_ok E ''Objective''" "paragraph_ok E ''Experience''"
  "paragraph_ok E ''Education''" "paragraph_ok E ''Skills''"
  by (simp_all add: paragraph_ok_def plain_text_def)

lemma comprehension_paragraphs:
  "comprehension (\<lambda>(c, s). new_paragraph E c s b) cs =
     (if list_all (paragraph_ok E) (map fst cs)
      then Inr (map (\<lambda>(c, s). Paragraph c s b) cs) else Inl ValueError)"
  by (induction cs) (auto simp: new_paragraph_def split: sum.splits if_splits)

lemma add_table_row_rejected:
  "\<not> list_all (paragraph_ok E) (map fst cs) \<Longrightarrow>
   add_table_row E r cs sp pad b st = (Inl ValueError, st)"
  by (simp add: add_table_row_def comprehension_paragraphs)

lemma add_table_row_accepted:
  "list_all (paragraph_ok E) (map fst cs) \<Longrightarrow>
   add_table_row E r cs sp pad b st = (Inr (r + 1), snd (add_table_row E r cs sp pad b st))"
  by (simp add: add_table_row_def comprehension_paragraphs Let_def)

lemma fst_add_table_row [simp]:
  "list_all (paragraph_ok E) (map fst cs) \<Longrightarrow>
   fst (add_table_row E r cs sp pad b st) = Inr (r + 1)"
  by (simp add: add_table_row_def comprehension_paragraphs Let_def)

lemma andthen_add_table_row [simp]:
  "andthen (add_table_row E r cs sp pad b) f st =
     (if list_all (paragraph_ok E) (map fst cs)
      then f (r + 1) (snd (add_table_row E r cs sp pad b st))
      else (Inl ValueError, st))"
  by (simp add: andthen_def add_table_row_def comprehension_paragraphs Let_def)

lemma table_data_add_table_row [simp]:
  "list_all (paragraph_ok E) (map fst cs) \<Longrightarrow>
   table_data (snd (add_table_row E r cs sp pad b st)) =
     table_data st @ [map (\<lambda>(c, s). Paragraph c s (if truthy b then b else None)) cs]"
  by (simp add: add_table_row_def comprehension_paragraphs Let_def log_call_def)

lemma table_styles_add_table_row [simp]:
  "list_all (paragraph_ok E) (map fst cs) \<Longrightarrow>
   table_styles (snd (add_table_row E r cs sp pad b st)) =
     table_styles st @
       [Directive ''BOTTOMPADDING'' (0, r) (- 1, r) [IntV (fst pad)],
        Directive ''TOPPADDING'' (0, r) (- 1, r) [IntV (snd pad)]]
       @ (if sp then [Directive ''SPAN'' (0, r) (1, r) []] else [])"
  by (simp add: add_table_row_def comprehension_paragraphs Let_def log_call_def)

lemma history_add_table_row [simp]:
  "list_all (paragraph_ok E) (map fst cs) \<Longrightarrow>
   history (snd (add_table_row E r cs sp pad b st)) =
     history st @ [(Some (r + 1), Suc (length (table_data st)),
       table_styles (snd (add_table_row E r cs sp pad b st)))]"
  by (simp add: add_table_row_def comprehension_paragraphs Let_def log_call_def)

lemma built_add_table_row [simp]: "built (snd (add_table_row E r cs sp pad b st)) = built st"
  by (simp add: add_table_row_def comprehension_paragraphs Let_def log_call_def)

lemma andthen_append_section [simp]:
  "andthen (append_section_table_style r) f st = f () (snd (append_section_table_style r st))"
  by (simp add: andthen_def append_section_table_style_def)

lemma table_data_append_section [simp]:
  "table_data (snd (append_section_table_style r st)) = table_data st"
  by (simp add: append_section_table_style_def log_call_def)

lemma table_styles_append_section [simp]:
  "table_styles (snd (append_section_table_style r st)) = table_styles st @
     [Directive ''TOPPADDING'' (0, r) (1, r) [IntV 5],
      Directive ''BOTTOMPADDING'' (0, r) (1, r) [IntV 2],
      Directive ''LINEBELOW'' (0, r) (- 1, r) [FloatV ''0.1'', ColorV ''black'']]"
  by (simp add: append_section_table_style_def log_call_def)

lemma history_append_section [simp]:
  "history (snd (append_section_table_style r st)) =
     history st @ [(None, length (table_data st),
       table_styles (snd (append_section_table_style r st)))]"
  by (simp add: append_section_table_style_def log_call_def)

lemma built_append_section [simp]: "built (snd (append_section_table_style r st)) = built st"
  by (simp add: append_section_table_style_def log_call_def)

lemma andthen_extend_styles [simp]:
  "andthen (extend_styles ds) f st = f () (st\<lparr>table_styles := table_styles st @ ds\<rparr>)"
  by (simp add: andthen_def extend_styles_def)

lemma andthen_doc_build [simp]:
  "andthen (doc_build E p) f st =
     (if build_ok E p (table_data st) (table_styles st)
      then f () (st\<lparr>built := Some (p, table_data st, table_styles st)\<rparr>)
      else (Inl RenderError, st))"
  by (simp add: andthen_def doc_build_def)

subsection \<open>Loops\<close>

lemma for_loop_append:
  "for_loop (xs @ ys) body r st =
     (case for_loop xs body r st of (Inl e, st') \<Rightarrow> (Inl e, st') | (Inr r', st') \<Rightarrow> for_loop ys body r' st')"
proof (induction xs arbitrary: r st)
  case Nil
  show ?case by simp
next
  case (Cons x xs)
  show ?case
    by (cases "body r x st" rule: prod.exhaust[case_product sum.exhaust])
       (auto simp: andthen_def Cons.IH split: sum.splits prod.splits)
qed

lemma for_loop_zip:
  assumes "\<And>r i x. body r (i, x) = g r x" and "length is = length xs"
  shows "for_loop (zip is xs) body = for_loop xs g"
  using assms(2)
proof (induction xs arbitrary: "is")
  case Nil
  then show ?case by (simp add: fun_eq_iff)
next
  case (Cons x xs)
  then obtain i is' where "is = i # is'" "length is' = length xs"
    by (cases "is") auto
  have rest: "for_loop (zip is' xs) body = for_loop xs g"
    by (rule Cons.IH) fact
  show ?case
    by (simp add: fun_eq_iff \<open>is = i # is'\<close> rest assms(1))
qed

lemma for_loop_enumerate:
  "(\<And>r i x. body r (i, x) = g r x) \<Longrightarrow> for_loop (enumerate_list xs) body = for_loop xs g"
  unfolding enumerate_list_def by (rule for_loop_zip) simp_all

lemma for_loop_cong:
  assumes "\<And>x r. x \<in> set xs \<Longrightarrow> body r x = body' r (f x)"
  shows "for_loop xs body r st = for_loop (map f xs) body' r st"
  using assms
proof (induction xs arbitrary: r st)
  case Nil
  show ?case by simp
next
  case (Cons x xs)
  have "for_loop xs body = for_loop (map f xs) body'"
    using Cons by (simp add: fun_eq_iff)
  moreover have "body r x = body' r (f x)" using Cons.prems by simp
  ultimately show ?case by simp
qed

lemma last_index: "i < n \<Longrightarrow> (int i = int n - 1) = (Suc i = n)"
  by auto

lemma highlights_prefix:
  assumes "m \<le> length hs" and "list_all (paragraph_ok E) hs"
  shows "for_loop (zip [0..<m] (take m hs)) (highlight_body E hs) r st = (res, st') \<Longrightarrow>
     res = Inr (r + int m)
     \<and> table_data st' = table_data st @
          map (\<lambda>i. [Paragraph (hs ! i)
                 (if Suc i = length hs then Style_last_bullet_point else Style_bullet_points)
                 (Some BULLET)]) [0..<m]
     \<and> table_styles st' = table_styles st @
          concat (map (\<lambda>i.
            [Directive ''BOTTOMPADDING'' (0, r + int i) (- 1, r + int i)
               [IntV (if Suc i = length hs then 5 else 0)],
             Directive ''TOPPADDING'' (0, r + int i) (- 1, r + int i) [IntV 1],
             Directive ''SPAN'' (0, r + int i) (1, r + int i) []]) [0..<m])
     \<and> built st' = built st"
  using assms(1)
proof (induction m arbitrary: res st')
  case 0
  then show ?case by simp
next
  case (Suc m)
  then have m: "m < length hs" by simp
  then have ok: "paragraph_ok E (hs ! m)"
    using assms(2) by (simp add: list_all_length)
  obtain res0 st0 where run0:
    "for_loop (zip [0..<m] (take m hs)) (highlight_body E hs) r st = (res0, st0)"
    by (cases "for_loop (zip [0..<m] (take m hs)) (highlight_body E hs) r st")
  from Suc.IH[OF run0] m have ih:
    "res0 = Inr (r + int m)"
    "table_data st0 = table_data st @
          map (\<lambda>i. [Paragraph (hs ! i)
                 (if Suc i = length hs then Style_last_bullet_point else Style_bullet_points)
                 (Some BULLET)]) [0..<m]"
    "table_styles st0 = table_styles st @
          concat (map (\<lambda>i.
            [Directive ''BOTTOMPADDING'' (0, r + int i) (- 1, r + int i)
               [IntV (if Suc i = length hs then 5 else 0)],
             Directive ''TOPPADDING'' (0, r + int i) (- 1, r + int i) [IntV 1],
             Directive ''SPAN'' (0, r + int i) (1, r + int i) []]) [0..<m])"
    "built st0 = built st"
    by simp_all
  have split: "zip [0..<Suc m] (take (Suc m) hs) = zip [0..<m] (take m hs) @ [(m, hs ! m)]"
    using m by (simp add: take_Suc_conv_app_nth)
  have bullet: "truthy (Some BULLET)" by (simp add: truthy_def BULLET_def)
  have step: "(res, st') = highlight_body E hs (r + int m) (m, hs ! m) st0"
    using Suc.prems(1) unfolding split for_loop_append run0 ih(1)
    by (simp add: andthen_def split: prod.splits sum.splits)
  have "res = fst (highlight_body E hs (r + int m) (m, hs ! m) st0)"
       "st' = snd (highlight_body E hs (r + int m) (m, hs ! m) st0)"
    using step by (metis fst_conv, metis snd_conv)
  then show ?case
    using m bullet ok by (simp add: highlight_body_def Let_def ih last_index)
qed

lemma highlights_loop:
  assumes "list_all (paragraph_ok E) hs"
  shows "fst (for_loop (enumerate_list hs) (highlight_body E hs) r st) = Inr (r + int (length hs))
   \<and> table_data (snd (for_loop (enumerate_list hs) (highlight_body E hs) r st)) =
       table_data st @ highlight_rows hs
   \<and> table_styles (snd (for_loop (enumerate_list hs) (highlight_body E hs) r st)) =
       table_styles st @ highlight_styles r hs
   \<and> built (snd (for_loop (enumerate_list hs) (highlight_body E hs) r st)) = built st"
  using highlights_prefix[OF le_refl assms, of r st]
  by (cases "for_loop (enumerate_list hs) (highlight_body E hs) r st")
     (simp add: enumerate_list_def highlight_rows_def highlight_styles_def)

lemma failed_fst: "fst out = Inr v \<Longrightarrow> \<not> failed out"
  by (simp add: failed_def)

lemma for_loop_run:
  assumes "\<And>x r st. x \<in> set xs \<Longrightarrow>
     fst (body r x st) = Inr (r + 1)
     \<and> table_data (snd (body r x st)) = table_data st @ [row x]
     \<and> table_styles (snd (body r x st)) = table_styles st @ styles r
     \<and> built (snd (body r x st)) = built st"
  shows "fst (for_loop xs body r st) = Inr (r + int (length xs))
     \<and> table_data (snd (for_loop xs body r st)) = table_data st @ map row xs
     \<and> table_styles (snd (for_loop xs body r st)) =
         table_styles st @ concat (map (\<lambda>i. styles (r + int i)) [0..<length xs])
     \<and> built (snd (for_loop xs body r st)) = built st"
  using assms
proof (induction xs arbitrary: r st)
  case Nil
  show ?case by simp
next
  case (Cons x xs)
  have x: "fst (body r x st) = Inr (r + 1)"
    "table_data (snd (body r x st)) = table_data st @ [row x]"
    "table_styles (snd (body r x st)) = table_styles st @ styles r"
    "built (snd (body r x st)) = built st"
    using Cons.prems[of x r st] by simp_all
  have ok: "\<not> failed (body r x st)" using x(1) by (rule failed_fst)
  have rest: "fst (for_loop xs body r' st') = Inr (r' + int (length xs))
     \<and> table_data (snd (for_loop xs body r' st')) = table_data st' @ map row xs
     \<and> table_styles (snd (for_loop xs body r' st')) =
         table_styles st' @ concat (map (\<lambda>i. styles (r' + int i)) [0..<length xs])
     \<and> built (snd (for_loop xs body r' st')) = built st'" for r' st'
    by (rule Cons.IH) (simp add: Cons.prems)
  have shift: "map (\<lambda>i. styles (r + int i)) [0..<Suc (length xs)] =
      styles r # map (\<lambda>i. styles (r + 1 + int i)) [0..<length xs]"
    by (simp add: upt_conv_Cons map_Suc_upt[symmetric] comp_def add.assoc del: upt_Suc)
  show ?case
    using x rest ok by (simp add: andthen_ok shift del: upt_Suc)
qed

section \<open>Properties of the sections\<close>

text \<open>
  Claim C9: with an empty list, each of \<open>add_experiences\<close>, \<open>add_education\<close>
  and \<open>add_skills\<close> returns without error, having appended its heading row with the
  directives of a heading and nothing else.
\<close>

theorem empty_sections:
  "fst (add_experiences E r [] st) = Inr (r + 1)
   \<and> table_data (snd (add_experiences E r [] st)) =
       table_data st @ [[Paragraph ''Experience'' Style_section None]]
   \<and> table_styles (snd (add_experiences E r [] st)) = table_styles st @ section_heading_styles E r
   \<and> fst (add_education E r [] st) = Inr (r + 1)
   \<and> table_data (snd (add_education E r [] st)) =
       table_data st @ [[Paragraph ''Education'' Style_section None]]
   \<and> table_styles (snd (add_education E r [] st)) = table_styles st @ section_heading_styles E r
   \<and> fst (add_skills E r [] st) = Inr (r + 1)
   \<and> table_data (snd (add_skills E r [] st)) =
       table_data st @ [[Paragraph ''Skills'' Style_section None]]
   \<and> table_styles (snd (add_skills E r [] st)) = table_styles st @ section_heading_styles E r"
  by (simp add: add_experiences_def add_education_def add_skills_def section_heading_styles_def
      truthy_def)

subsection \<open>Experiences\<close>

lemma experience_body_index: "experience_body E r (i, job) = experience_body E r (0, job)"
  by (simp add: experience_body_def)

lemma experience_body_run:
  assumes "valid_experience job" and "list_all (paragraph_ok E) (experience_texts job)"
  shows "fst (experience_body E r (idx, job) st) =
       Inr (r + 2 + int (length (entries (j_highlights job))))
     \<and> table_data (snd (experience_body E r (idx, job) st)) = table_data st @ experience_rows job
     \<and> table_styles (snd (experience_body E r (idx, job) st)) =
         table_styles st @ experience_styles E r job
     \<and> built (snd (experience_body E r (idx, job) st)) = built st"
proof -
  from assms(1) obtain company location hs t ts where job:
    "j_company job = Some company" "j_location job = Some location" "j_highlights job = Some hs"
    "j_titles job = Some (t # ts)" "valid_title t"
    by (auto simp: valid_experience_def split: option.splits list.splits)
  from \<open>valid_title t\<close> obtain a b c where t:
    "t_name t = Some a" "t_startdate t = Some b" "t_enddate t = Some c"
    by (auto simp: valid_title_def)
  from assms(2) have ok: "paragraph_ok E company" "paragraph_ok E (b @ ''-'' @ c)"
    "paragraph_ok E a" "paragraph_ok E location" "list_all (paragraph_ok E) hs"
    by (simp_all add: experience_texts_def job t entries_def duration_def first_title_def)
  show ?thesis
    using ok(1-4)
    by (simp add: experience_body_def highlights_loop[OF ok(5)] job t entries_def
        experience_rows_def experience_styles_def duration_def first_title_def truthy_def
        add.assoc)
qed

lemma experiences_loop:
  assumes "list_all valid_experience xs"
    and "list_all (paragraph_ok E) (concat (map experience_texts xs))"
  shows "fst (for_loop (enumerate_list xs) (experience_body E) r st) =
       Inr (r + int (2 * length xs + total_highlights xs))
     \<and> table_data (snd (for_loop (enumerate_list xs) (experience_body E) r st)) =
         table_data st @ concat (map experience_rows xs)
     \<and> table_styles (snd (for_loop (enumerate_list xs) (experience_body E) r st)) =
         table_styles st @ experiences_styles E r xs
     \<and> built (snd (for_loop (enumerate_list xs) (experience_body E) r st)) = built st"
proof -
  let ?body = "\<lambda>r job. experience_body E r (0, job)"
  have loop: "for_loop (enumerate_list xs) (experience_body E) = for_loop xs ?body"
    by (rule for_loop_enumerate) (rule experience_body_index)
  have "fst (for_loop xs ?body r st) = Inr (r + int (2 * length xs + total_highlights xs))
     \<and> table_data (snd (for_loop xs ?body r st)) = table_data st @ concat (map experience_rows xs)
     \<and> table_styles (snd (for_loop xs ?body r st)) = table_styles st @ experiences_styles E r xs
     \<and> built (snd (for_loop xs ?body r st)) = built st"
    using assms
  proof (induction xs arbitrary: r st)
    case Nil
    show ?case by (simp add: total_highlights_def)
  next
    case (Cons x xs)
    have x: "fst (?body r x st) = Inr (r + 2 + int (length (entries (j_highlights x))))"
      "table_data (snd (?body r x st)) = table_data st @ experience_rows x"
      "table_styles (snd (?body r x st)) = table_styles st @ experience_styles E r x"
      "built (snd (?body r x st)) = built st"
      using experience_body_run[of x E r 0 st] Cons.prems by simp_all
    have ok: "\<not> failed (?body r x st)" using x(1) by (rule failed_fst)
    have rest: "fst (for_loop xs ?body r' st') =
         Inr (r' + int (2 * length xs + total_highlights xs))
       \<and> table_data (snd (for_loop xs ?body r' st')) =
           table_data st' @ concat (map experience_rows xs)
       \<and> table_styles (snd (for_loop xs ?body r' st')) =
           table_styles st' @ experiences_styles E r' xs
       \<and> built (snd (for_loop xs ?body r' st')) = built st'" for r' st'
      using Cons.prems by (intro Cons.IH) simp_all
    have total: "total_highlights (x # xs) =
        length (entries (j_highlights x)) + total_highlights xs"
      by (simp add: total_highlights_def)
    show ?case
      using x rest ok by (simp add: andthen_ok total)
  qed
  then show ?thesis unfolding loop .
qed

lemma add_experiences_run:
  assumes "list_all valid_experience xs"
    and "list_all (paragraph_ok E) (concat (map experience_texts xs))"
  shows "fst (add_experiences E r xs st) = Inr (r + 1 + int (2 * length xs + total_highlights xs))
     \<and> table_data (snd (add_experiences E r xs st)) =
         table_data st @ [Paragraph ''Experience'' Style_section None] # concat (map experience_rows xs)
     \<and> table_styles (snd (add_experiences E r xs st)) =
         table_styles st @ section_heading_styles E r @ experiences_styles E (r + 1) xs
     \<and> built (snd (add_experiences E r xs st)) = built st"
  by (simp add: add_experiences_def experiences_loop[OF assms] section_heading_styles_def
      truthy_def)

subsection \<open>Education\<close>

lemma education_body_run:
  assumes "valid_education_entry edu" and "paragraph_ok E (education_text E edu)"
  shows "fst (education_body E r edu st) = Inr (r + 1)
     \<and> table_data (snd (education_body E r edu st)) =
         table_data st @ [[Paragraph (education_text E edu) Style_education None]]
     \<and> table_styles (snd (education_body E r edu st)) = table_styles st @
         [Directive ''BOTTOMPADDING'' (0, r) (- 1, r) [IntV (fst (DEFAULT_PADDING E))],
          Directive ''TOPPADDING'' (0, r) (- 1, r) [IntV (snd (DEFAULT_PADDING E))],
          Directive ''SPAN'' (0, r) (1, r) []]
     \<and> built (snd (education_body E r edu st)) = built st"
proof -
  from assms(1) obtain school d ds ns where edu:
    "e_school edu = Some school" "e_degrees edu = Some (d # ds)" "d_names d = Some ns"
    by (auto simp: valid_education_entry_def split: option.splits list.splits)
  from assms(2) have "paragraph_ok E
      (''<font name='' @ [CHR 0x27] @ FONT_NAMES_bold E @ [CHR 0x27] @ ''>'' @ school
         @ ''</font>, '' @ join '', '' ns)"
    by (simp add: education_text_def edu entries_def)
  then show ?thesis
    by (simp add: education_body_def edu education_text_def entries_def truthy_def)
qed

lemma add_education_run:
  assumes "list_all valid_education_entry xs"
    and "list_all (paragraph_ok E) (map (education_text E) xs)"
  shows "fst (add_education E r xs st) = Inr (r + 1 + int (length xs))
     \<and> length (table_data (snd (add_education E r xs st))) = length (table_data st) + (1 + length xs)
     \<and> built (snd (add_education E r xs st)) = built st"
proof -
  have body: "fst (education_body E r' x st') = Inr (r' + 1)
     \<and> table_data (snd (education_body E r' x st')) =
         table_data st' @ [[Paragraph (education_text E x) Style_education None]]
     \<and> table_styles (snd (education_body E r' x st')) = table_styles st' @
         [Directive ''BOTTOMPADDING'' (0, r') (- 1, r') [IntV (fst (DEFAULT_PADDING E))],
          Directive ''TOPPADDING'' (0, r') (- 1, r') [IntV (snd (DEFAULT_PADDING E))],
          Directive ''SPAN'' (0, r') (1, r') []]
     \<and> built (snd (education_body E r' x st')) = built st'"
    if "x \<in> set xs" for x r' st'
    using assms that by (intro education_body_run) (simp_all add: list_all_iff)
  show ?thesis
    using for_loop_run[where xs = xs and body = "education_body E"
        and row = "\<lambda>x. [Paragraph (education_text E x) Style_education None]", OF body]
    by (simp add: add_education_def)
qed

subsection \<open>Skills\<close>

lemma valid_skill_groupE:
  assumes "valid_skill_group grp"
  obtains k0 v0 k1 v1 others where "grp = (k0, v0) # (k1, v1) # others" and "k0 \<noteq> k1"
proof -
  from assms obtain p q others where "grp = p # q # others"
    by (cases grp; cases "tl grp") (auto simp: valid_skill_group_def)
  with assms that show ?thesis
    by (cases p; cases q) (auto simp: valid_skill_group_def)
qed

lemma skill_body_take:
  assumes "valid_skill_group grp"
  shows "skill_body E r grp = skill_body E r (take 2 grp)"
proof -
  from assms obtain k0 v0 k1 v1 others where "grp = (k0, v0) # (k1, v1) # others" "k0 \<noteq> k1"
    by (rule valid_skill_groupE)
  then show ?thesis
    by (simp add: skill_body_def Let_def index_def group_getitem_def fun_eq_iff numeral_2_eq_2)
qed

lemma skill_body_run:
  assumes "valid_skill_group grp" and "paragraph_ok E (skill_text E grp)"
  shows "fst (skill_body E r grp st) = Inr (r + 1)
     \<and> table_data (snd (skill_body E r grp st)) =
         table_data st @ [[Paragraph (skill_text E grp) Style_skills None]]
     \<and> table_styles (snd (skill_body E r grp st)) = table_styles st @
         [Directive ''BOTTOMPADDING'' (0, r) (- 1, r) [IntV 2],
          Directive ''TOPPADDING'' (0, r) (- 1, r) [IntV 2],
          Directive ''SPAN'' (0, r) (1, r) []]
     \<and> built (snd (skill_body E r grp st)) = built st"
proof -
  from assms(1) obtain k0 v0 k1 v1 others where grp:
    "grp = (k0, v0) # (k1, v1) # others" "k0 \<noteq> k1"
    by (rule valid_skill_groupE)
  from assms(2) have "paragraph_ok E
      (''<font name='' @ [CHR 0x27] @ FONT_NAMES_bold E @ [CHR 0x27] @ ''>''
         @ py_str E v0 @ ''</font>: '' @ join '', '' (py_iter v1))"
    by (simp add: skill_text_def grp)
  then show ?thesis
    using grp(2)
    by (simp add: grp(1) skill_body_def Let_def index_def group_getitem_def skill_text_def
        truthy_def)
qed

lemma add_skills_run:
  assumes "list_all valid_skill_group skills"
    and "list_all (paragraph_ok E) (map (skill_text E) skills)"
  shows "fst (add_skills E r skills st) = Inr (r + 1 + int (length skills))
     \<and> table_data (snd (add_skills E r skills st)) =
         table_data st @ [Paragraph ''Skills'' Style_section None]
           # map (\<lambda>grp. [Paragraph (skill_text E grp) Style_skills None]) skills
     \<and> table_styles (snd (add_skills E r skills st)) =
         table_styles st @ section_heading_styles E r @ skill_styles (r + 1) (length skills)
     \<and> built (snd (add_skills E r skills st)) = built st"
proof -
  have body: "fst (skill_body E r' x st') = Inr (r' + 1)
     \<and> table_data (snd (skill_body E r' x st')) =
         table_data st' @ [[Paragraph (skill_text E x) Style_skills None]]
     \<and> table_styles (snd (skill_body E r' x st')) = table_styles st' @
         [Directive ''BOTTOMPADDING'' (0, r') (- 1, r') [IntV 2],
          Directive ''TOPPADDING'' (0, r') (- 1, r') [IntV 2],
          Directive ''SPAN'' (0, r') (1, r') []]
     \<and> built (snd (skill_body E r' x st')) = built st'"
    if "x \<in> set skills" for x r' st'
    using assms that by (intro skill_body_run) (simp_all add: list_all_iff)
  show ?thesis
    using for_loop_run[where xs = skills and body = "skill_body E"
        and row = "\<lambda>grp. [Paragraph (skill_text E grp) Style_skills None]", OF body]
    by (simp add: add_skills_def section_heading_styles_def skill_styles_def truthy_def)
qed

lemma add_skills_take:
  assumes "list_all valid_skill_group skills"
  shows "add_skills E r skills st = add_skills E r (map (take 2) skills) st"
proof -
  have "for_loop skills (skill_body E) r' st' = for_loop (map (take 2) skills) (skill_body E) r' st'"
    for r' st'
    using assms by (intro for_loop_cong skill_body_take) (simp add: list_all_iff)
  then show ?thesis by (simp add: add_skills_def)
qed

subsection \<open>The rows of the experiences and of the skills\<close>

lemma example_env_simps:
  "DEFAULT_PADDING example_env = (1, 1)"
  "FONT_NAMES_bold example_env = ''Bold''"
  "markup_ok example_env = example_markup"
  "build_ok example_env p rows styles = True"
  "DEBUG_STYLE example_env = Directive ''GRID'' (0, 0) (- 1, - 1) [IntV 0, ColorV ''black'']"
  "DOCUMENT_ALIGNMENT example_env = [Directive ''ALIGN'' (0, 0) (- 1, - 1) [StrV ''LEFT'']]"
  "generate_doc_template example_env name loc = loc @ ''/'' @ name @ ''.pdf''"
  "repr_list example_env xs =
     ''['' @ join '', '' (map (\<lambda>x. [CHR 0x27] @ x @ [CHR 0x27]) xs) @ '']''"
  by (simp_all add: example_env_def)

lemma initial_simps:
  "table_data initial = []" "table_styles initial = []" "built initial = None"
  "history initial = []"
  by (simp_all add: initial_def)

lemma example_job_simps:
  "j_company (example_job hs) = Some ''Acme''" "j_location (example_job hs) = Some ''Oslo''"
  "j_titles (example_job hs) = Some [\<lparr>t_name = Some ''Engineer'', t_startdate = Some ''2020'',
                        t_enddate = Some ''2023''\<rparr>]"
  "j_highlights (example_job hs) = Some hs"
  by (simp_all add: example_job_def example_experience_def)

text \<open>
  Claim C6: for a list of jobs whose keys are all present and whose texts the layout
  library accepts, \<open>add_experiences\<close> returns the index behind its last row, having
  appended the heading and, per job, the company row, the title row and one bulleted row
  per highlight. Of the highlight rows of a job the last has the style
  \<open>last_bullet_point\<close> and the bottom padding 5, every earlier one the style
  \<open>bullet_points\<close> and the bottom padding 0; a single highlight is the last one.
\<close>

theorem last_highlight_padding:
  assumes "list_all valid_experience xs"
    and "list_all (paragraph_ok E) (concat (map experience_texts xs))"
  shows "fst (add_experiences E r xs st) = Inr (r + 1 + int (2 * length xs + total_highlights xs))
     \<and> table_data (snd (add_experiences E r xs st)) =
         table_data st @ [Paragraph ''Experience'' Style_section None] # concat (map experience_rows xs)
     \<and> table_styles (snd (add_experiences E r xs st)) =
         table_styles st @ section_heading_styles E r @ experiences_styles E (r + 1) xs"
  using add_experiences_run[OF assms, of r st] by simp

theorem last_highlight_padding_witness:
  "list_all valid_experience
     [example_job [''a''], example_job [''a'', ''b''],
      example_job [''a'', ''b'', ''c'', ''d'', ''e'']]
   \<and> list_all (paragraph_ok example_env) (concat (map experience_texts
        [example_job [''a''], example_job [''a'', ''b''],
         example_job [''a'', ''b'', ''c'', ''d'', ''e'']]))
   \<and> fst (add_experiences example_env 0
        [example_job [''a''], example_job [''a'', ''b''],
         example_job [''a'', ''b'', ''c'', ''d'', ''e'']] initial) = Inr 15
   \<and> map (\<lambda>row. style (hd row)) (table_data (snd (add_experiences example_env 0
        [example_job [''a''], example_job [''a'', ''b''],
         example_job [''a'', ''b'', ''c'', ''d'', ''e'']] initial))) =
      [Style_section, Style_company_heading, Style_company_title,
       Style_last_bullet_point, Style_company_heading, Style_company_title,
       Style_bullet_points, Style_last_bullet_point, Style_company_heading,
       Style_company_title, Style_bullet_points, Style_bullet_points,
       Style_bullet_points, Style_bullet_points, Style_last_bullet_point]
   \<and> map (\<lambda>d. (snd (start d), dvalues d))
       (filter (\<lambda>d. command d = ''BOTTOMPADDING'' \<and> fst (stop d) = - 1)
          (table_styles (snd (add_experiences example_env 0
             [example_job [''a''], example_job [''a'', ''b''],
              example_job [''a'', ''b'', ''c'', ''d'', ''e'']] initial)))) =
      [(0, [IntV 1]), (1, [IntV 1]), (2, [IntV 1]), (3, [IntV 5]),
       (4, [IntV 1]), (5, [IntV 1]), (6, [IntV 0]), (7, [IntV 5]),
       (8, [IntV 1]), (9, [IntV 1]), (10, [IntV 0]), (11, [IntV 0]),
       (12, [IntV 0]), (13, [IntV 0]), (14, [IntV 5])]"
proof -
  let ?xs = "[example_job [''a''], example_job [''a'', ''b''],
      example_job [''a'', ''b'', ''c'', ''d'', ''e'']]"
  have v: "list_all valid_experience ?xs"
    by (simp add: valid_experience_def valid_title_def example_job_simps)
  have t: "list_all (paragraph_ok example_env) (concat (map experience_texts ?xs))"
    by (simp add: experience_texts_def duration_def first_title_def entries_def
        example_job_simps paragraph_ok_def plain_text_def)
  have n: "total_highlights ?xs = 8"
    by (simp add: total_highlights_def entries_def example_job_simps)
  note run = last_highlight_padding [OF v t, of 0 initial, unfolded n]
  have c1: "fst (add_experiences example_env 0 ?xs initial) = Inr 15"
    using run by simp
  have c2: "map (\<lambda>row. style (hd row))
       (table_data (snd (add_experiences example_env 0 ?xs initial))) =
      [Style_section, Style_company_heading, Style_company_title,
       Style_last_bullet_point, Style_company_heading, Style_company_title,
       Style_bullet_points, Style_last_bullet_point, Style_company_heading,
       Style_company_title, Style_bullet_points, Style_bullet_points,
       Style_bullet_points, Style_bullet_points, Style_last_bullet_point]"
    using run
    by (simp add: initial_simps experience_rows_def highlight_rows_def entries_def
        example_job_simps upt_rec)
  have c3: "map (\<lambda>d. (snd (start d), dvalues d))
       (filter (\<lambda>d. command d = ''BOTTOMPADDING'' \<and> fst (stop d) = - 1)
          (table_styles (snd (add_experiences example_env 0 ?xs initial)))) =
      [(0, [IntV 1]), (1, [IntV 1]), (2, [IntV 1]), (3, [IntV 5]),
       (4, [IntV 1]), (5, [IntV 1]), (6, [IntV 0]), (7, [IntV 5]),
       (8, [IntV 1]), (9, [IntV 1]), (10, [IntV 0]), (11, [IntV 0]),
       (12, [IntV 0]), (13, [IntV 0]), (14, [IntV 5])]"
    using run
    by (simp add: initial_simps section_heading_styles_def experience_styles_def
        highlight_styles_def entries_def example_job_simps example_env_simps upt_rec)
  show ?thesis
    by (intro conjI v t c1 c2 c3)
qed

text \<open>
  Claim C10: of skill groups with two or more keys (the keys of a group are distinct, as
  those of a dictionary are) whose row texts the layout library accepts, \<open>add_skills\<close>
  reads the values of the first two keys only: the first as the bold label, the second
  joined by commas. Further keys change nothing: the outcome is the one of the groups cut
  down to their first two keys, one row per group beside the heading, and no error is
  raised.
\<close>

theorem skill_group_first_two_keys:
  assumes "list_all valid_skill_group skills"
    and "list_all (paragraph_ok E) (map (skill_text E) skills)"
  shows "add_skills E r skills st = add_skills E r (map (take 2) skills) st
     \<and> fst (add_skills E r skills st) = Inr (r + 1 + int (length skills))
     \<and> table_data (snd (add_skills E r skills st)) =
         table_data st @ [Paragraph ''Skills'' Style_section None]
           # map (\<lambda>grp. [Paragraph (skill_text E grp) Style_skills None]) skills
     \<and> table_styles (snd (add_skills E r skills st)) =
         table_styles st @ section_heading_styles E r @ skill_styles (r + 1) (length skills)"
  using add_skills_run[OF assms, of r st] add_skills_take[OF assms(1), of E r st] by simp

theorem skill_group_first_two_keys_witness:
  "list_all valid_skill_group
     [[(''category'', YStr ''Languages''), (''skills'', YSeq [''Go'', ''Rust'']),
       (''level'', YStr ''expert'')]]
   \<and> list_all (paragraph_ok example_env) (map (skill_text example_env)
     [[(''category'', YStr ''Languages''), (''skills'', YSeq [''Go'', ''Rust'']),
       (''level'', YStr ''expert'')]])
   \<and> fst (add_skills example_env 0
        [[(''category'', YStr ''Languages''), (''skills'', YSeq [''Go'', ''Rust'']),
          (''level'', YStr ''expert'')]] initial) = Inr 2
   \<and> table_data (snd (add_skills example_env 0
        [[(''category'', YStr ''Languages''), (''skills'', YSeq [''Go'', ''Rust'']),
          (''level'', YStr ''expert'')]] initial)) =
      [[Paragraph ''Skills'' Style_section None],
       [Paragraph (''<font name='' @ [CHR 0x27] @ ''Bold'' @ [CHR 0x27] @ ''>''
                     @ ''Languages</font>: Go, Rust'') Style_skills None]]
   \<and> add_skills example_env 0
        [[(''category'', YStr ''Languages''), (''skills'', YSeq [''Go'', ''Rust'']),
          (''level'', YStr ''expert'')]] initial =
      add_skills example_env 0
        [[(''category'', YStr ''Languages''), (''skills'', YSeq [''Go'', ''Rust''])]] initial"
proof -
  let ?skills = "[[(''category'', YStr ''Languages''), (''skills'', YSeq [''Go'', ''Rust'']),
       (''level'', YStr ''expert'')]]"
  have v: "list_all valid_skill_group ?skills"
    by (simp add: valid_skill_group_def)
  have t: "list_all (paragraph_ok example_env) (map (skill_text example_env) ?skills)"
    by code_simp
  note run = skill_group_first_two_keys [OF v t, of 0 initial]
  have c1: "fst (add_skills example_env 0 ?skills initial) = Inr 2"
    using run [THEN conjunct2, THEN conjunct1] by simp
  have c2: "table_data (snd (add_skills example_env 0 ?skills initial)) =
      [[Paragraph ''Skills'' Style_section None],
       [Paragraph (''<font name='' @ [CHR 0x27] @ ''Bold'' @ [CHR 0x27] @ ''>''
                     @ ''Languages</font>: Go, Rust'') Style_skills None]]"
    using run [THEN conjunct2, THEN conjunct2, THEN conjunct1]
    by (simp add: initial_simps skill_text_def example_env_simps)
  have c3: "add_skills example_env 0 ?skills initial =
      add_skills example_env 0
        [[(''category'', YStr ''Languages''), (''skills'', YSeq [''Go'', ''Rust''])]] initial"
    using run [THEN conjunct1] by (simp add: numeral_2_eq_2)
  show ?thesis
    by (intro conjI v t c1 c2 c3)
qed

section \<open>Properties of the document\<close>

lemma length_highlight_rows [simp]: "length (highlight_rows hs) = length hs"
  by (simp add: highlight_rows_def)

lemma length_experience_rows:
  "length (concat (map experience_rows xs)) = 2 * length xs + total_highlights xs"
  by (induction xs) (simp_all add: total_highlights_def experience_rows_def)

lemma add_experiences_valid:
  assumes "list_all valid_experience xs"
    and "list_all (paragraph_ok E) (concat (map experience_texts xs))"
  shows "\<not> failed (add_experiences E r xs st)
     \<and> built (snd (add_experiences E r xs st)) = built st
     \<and> length (table_data (snd (add_experiences E r xs st))) =
         length (table_data st) + (1 + 2 * length xs + total_highlights xs)"
  using add_experiences_run[OF assms, of r st]
  by (simp add: failed_def length_experience_rows)

lemma add_education_valid:
  assumes "list_all valid_education_entry xs"
    and "list_all (paragraph_ok E) (map (education_text E) xs)"
  shows "\<not> failed (add_education E r xs st)
     \<and> built (snd (add_education E r xs st)) = built st
     \<and> length (table_data (snd (add_education E r xs st))) = length (table_data st) + (1 + length xs)"
  using add_education_run[OF assms, of r st] by (simp add: failed_def)

lemma add_skills_valid:
  assumes "list_all valid_skill_group xs"
    and "list_all (paragraph_ok E) (map (skill_text E) xs)"
  shows "\<not> failed (add_skills E r xs st)
     \<and> built (snd (add_skills E r xs st)) = built st
     \<and> length (table_data (snd (add_skills E r xs st))) = length (table_data st) + (1 + length xs)"
  using add_skills_run[OF assms, of r st] by (simp add: failed_def)

lemma first_site_valid:
  "list_all valid_website sites \<Longrightarrow> \<exists>u. first_site wanted sites = Inr u"
  by (induction sites) (auto simp: valid_website_def)

text \<open>
  A valid record whose texts are accepted: all rows are appended, and the run ends in
  an error only if the layout library does not build the document.
\<close>

lemma generate_resume_valid:
  assumes "valid_resume data" and "texts_accepted E data"
  shows "length (table_data (snd (generate_resume E job_data_location data))) = row_count data
    \<and> (failed (generate_resume E job_data_location data) \<longrightarrow>
         fst (generate_resume E job_data_location data) = Inl RenderError
         \<and> \<not> build_ok E
             (generate_doc_template E (the (b_name (the (r_basic data)))) job_data_location)
             (table_data (snd (generate_resume E job_data_location data)))
             (table_styles (snd (generate_resume E job_data_location data))))
    \<and> (failed (generate_resume E job_data_location data) \<longleftrightarrow>
         built (snd (generate_resume E job_data_location data)) = None)"
proof -
  from assms(1) obtain b objective experiences education skills where data:
    "r_basic data = Some b" "valid_basic b" "r_objective data = Some objective"
    "r_experiences data = Some experiences" "list_all valid_experience experiences"
    "r_education data = Some education" "list_all valid_education_entry education"
    "r_skills data = Some skills" "list_all valid_skill_group skills"
    by (auto simp: valid_resume_def split: option.splits)
  from \<open>valid_basic b\<close> obtain name c email phone sites address where basic:
    "b_name b = Some name" "b_contact b = Some c" "c_email c = Some email"
    "c_phone c = Some phone" "b_websites b = Some sites" "list_all valid_website sites"
    "b_address b = Some address"
    by (auto simp: valid_basic_def split: option.splits)
  obtain linkedin github where sites:
    "first_site ''linkedin'' sites = Inr linkedin" "first_site ''github'' sites = Inr github"
    using first_site_valid[OF basic(6)] by blast
  from assms(2) have texts: "paragraph_ok E name"
    "paragraph_ok E (email @ '' | '' @ phone @ '' | '' @ linkedin @ '' | '' @ github
       @ '' | '' @ join '', '' address)"
    "paragraph_ok E objective"
    "list_all (paragraph_ok E) (concat (map experience_texts experiences))"
    "list_all (paragraph_ok E) (map (education_text E) education)"
    "list_all (paragraph_ok E) (map (skill_text E) skills)"
    by (simp_all add: texts_accepted_def resume_texts_def contact_line_def site_url_def
        data basic sites entries_def)
  note sections = add_experiences_valid[OF data(5) texts(4)]
    add_education_valid[OF data(7) texts(5)] add_skills_valid[OF data(9) texts(6)]
  show ?thesis
    using texts(1-3)
    by (simp add: generate_resume_def data basic sites Let_def andthen_ok sections
        row_count_def entries_def initial_def)
qed

lemma valid_example: "valid_resume example_resume"
  by code_simp

lemma texts_example: "texts_accepted example_env example_resume"
  by code_simp

lemma row_count_example: "row_count example_resume = 12"
  by code_simp

lemma example_built:
  assumes "valid_resume data" and "texts_accepted example_env data"
  shows "\<not> failed (generate_resume example_env loc data)
    \<and> built (snd (generate_resume example_env loc data)) \<noteq> None
    \<and> length (table_data (snd (generate_resume example_env loc data))) = row_count data"
  using generate_resume_valid[OF assms, of loc] by (auto simp: example_env_simps)

lemma aborted_Inl [simp]: "aborted (Inl e, st) = (built st = None)"
  by (simp add: aborted_def)

lemma built_for_loop:
  assumes "\<And>x r st. built (snd (body r x st)) = built st"
  shows "built (snd (for_loop xs body r st)) = built st"
proof (induction xs arbitrary: r st)
  case Nil
  show ?case by simp
next
  case (Cons x xs)
  show ?case
  proof (cases "body r x st")
    case (Pair res st')
    with assms[of r x st] have "built st' = built st" by simp
    with Pair Cons.IH show ?thesis
      by (cases res) (simp_all add: andthen_def)
  qed
qed

lemma built_highlight_body [simp]: "built (snd (highlight_body E hs r p st)) = built st"
  by (cases p) (simp add: highlight_body_def Let_def)

lemma built_experience_body [simp]: "built (snd (experience_body E r p st)) = built st"
  by (cases p) (simp add: experience_body_def built_for_loop split: sum.split)

lemma built_education_body [simp]: "built (snd (education_body E r edu st)) = built st"
  by (simp add: education_body_def split: sum.split)

lemma built_skill_body [simp]: "built (snd (skill_body E r grp st)) = built st"
  by (simp add: skill_body_def Let_def split: sum.split)

lemma built_add_experiences [simp]: "built (snd (add_experiences E r xs st)) = built st"
  by (simp add: add_experiences_def built_for_loop)

lemma built_add_education [simp]: "built (snd (add_education E r xs st)) = built st"
  by (simp add: add_education_def built_for_loop)

lemma built_add_skills [simp]: "built (snd (add_skills E r xs st)) = built st"
  by (simp add: add_skills_def built_for_loop)

lemma andthen_aborted:
  assumes "built (snd (m st)) = None"
    and "\<And>v st'. built st' = None \<Longrightarrow> aborted (f v st')"
  shows "aborted (andthen m f st)"
proof (cases "m st")
  case (Pair res st')
  with assms(1) have "built st' = None" by simp
  with Pair assms(2) show ?thesis
    by (cases res) (simp_all add: andthen_def)
qed

lemma andthen_failed_left:
  assumes "failed (m st)" and "built (snd (m st)) = None"
  shows "aborted (andthen m f st)"
  using assms by (cases "m st") (auto simp: andthen_def failed_def split: sum.splits)



text \<open>
  Claim C1, as stated: the experiences section contributes
  \<open>1 + 3 * len(experiences) + total highlights\<close> rows. The code appends two rows per
  experience, the company row and the title row, beside its highlights: the example
  record, valid and with one experience of one highlight, yields 12 rows where the claim
  counts 13.
\<close>

theorem claimed_row_count_wrong:
  "valid_resume example_resume
   \<and> length (table_data (snd (generate_resume example_env ''out'' example_resume))) = 12
   \<and> claimed_row_count example_resume = 13"
proof -
  have "claimed_row_count example_resume = 13" by code_simp
  then show ?thesis
    using valid_example example_built[OF valid_example texts_example, of "''out''"]
    by (simp add: row_count_example)
qed

text \<open>
  Claim C1, amended: for every valid record whose cell texts the layout library accepts,
  the number of rows that \<open>generate_resume\<close> appends is 2 (name, contact) + 2
  (objective heading and body) + \<open>1 + 2 * len(experiences) + total highlights\<close> +
  \<open>1 + len(education)\<close> + \<open>1 + len(skills)\<close>.
\<close>

theorem valid_resume_row_count:
  assumes "valid_resume data" and "texts_accepted E data"
  shows "length (table_data (snd (generate_resume E job_data_location data))) = row_count data"
  using generate_resume_valid[OF assms] by simp

theorem valid_resume_row_count_witness:
  "valid_resume example_resume
   \<and> texts_accepted example_env example_resume
   \<and> length (table_data (snd (generate_resume example_env ''out'' example_resume))) = 12"
proof -
  have v: "valid_resume example_resume" by code_simp
  have t: "texts_accepted example_env example_resume" by code_simp
  have "row_count example_resume = 12" by code_simp
  with v t valid_resume_row_count [OF v t, of "''out''"] show ?thesis by simp
qed




section \<open>Lists that are too short\<close>

lemma for_loop_fails:
  assumes "x \<in> set xs" and "\<And>r st. failed (body r x st)"
  shows "failed (for_loop xs body r st)"
  using assms(1)
proof (induction xs arbitrary: r st)
  case Nil
  then show ?case by simp
next
  case (Cons y ys)
  show ?case
  proof (cases "body r y st")
    case (Pair res st')
    show ?thesis
    proof (cases res)
      case (Inl e)
      with Pair show ?thesis by (simp add: andthen_def)
    next
      case (Inr r')
      with Pair assms(2)[of r st] have "x \<noteq> y" by auto
      with Cons.prems have "x \<in> set ys" by simp
      from Cons.IH[OF this] Pair Inr show ?thesis by (simp add: andthen_def)
    qed
  qed
qed

lemma in_enumerate_list: "x \<in> set xs \<Longrightarrow> \<exists>i. (i, x) \<in> set (enumerate_list xs)"
proof -
  assume "x \<in> set xs"
  then obtain i where i: "i < length xs" "xs ! i = x"
    by (auto simp: in_set_conv_nth)
  then have "zip [0..<length xs] xs ! i = (i, x)" by simp
  moreover have "i < length (zip [0..<length xs] xs)" using i by simp
  ultimately have "(i, x) \<in> set (zip [0..<length xs] xs)" by (metis nth_mem)
  then show ?thesis by (auto simp: enumerate_list_def)
qed

lemma add_experiences_fails:
  assumes "job \<in> set experiences" and "j_titles job = Some []"
  shows "failed (add_experiences E r experiences st)"
proof -
  from in_enumerate_list[OF assms(1)] obtain i where
    i: "(i, job) \<in> set (enumerate_list experiences)" ..
  have "failed (for_loop (enumerate_list experiences) (experience_body E) r' st')" for r' st'
    using i by (rule for_loop_fails) (simp add: experience_body_def assms(2))
  then show ?thesis by (simp add: add_experiences_def)
qed

lemma add_education_fails:
  assumes "edu \<in> set education" and "e_degrees edu = Some []"
  shows "failed (add_education E r education st)"
proof -
  have "failed (for_loop education (education_body E) r' st')" for r' st'
    using assms(1) by (rule for_loop_fails) (simp add: education_body_def assms(2))
  then show ?thesis by (simp add: add_education_def)
qed

lemma skill_body_fails: "length grp < 2 \<Longrightarrow> failed (skill_body E r grp st)"
  by (cases grp rule: list.exhaust[case_product list.exhaust, of _ "tl grp"])
     (auto simp: skill_body_def Let_def index_def group_getitem_def split: sum.split)

lemma add_skills_fails:
  assumes "grp \<in> set skills" and "length grp < 2"
  shows "failed (add_skills E r skills st)"
proof -
  have "failed (for_loop skills (skill_body E) r' st')" for r' st'
    using assms(1) by (rule for_loop_fails) (simp add: skill_body_fails assms(2))
  then show ?thesis by (simp add: add_skills_def)
qed

lemma bad_experience_aborts:
  assumes "r_experiences data = Some experiences" "job \<in> set experiences" "j_titles job = Some []"
  shows "aborted (generate_resume E loc data)"
  using assms(1)
  apply (simp add: generate_resume_def Let_def initial_def split: sum.split)
  apply ((intro conjI impI allI; rule andthen_failed_left;
          simp add: add_experiences_fails[OF assms(2,3)])+)
  done

lemma bad_education_aborts:
  assumes "r_education data = Some education" "edu \<in> set education" "e_degrees edu = Some []"
  shows "aborted (generate_resume E loc data)"
  using assms(1)
  apply (simp add: generate_resume_def Let_def initial_def split: sum.split)
  apply ((intro conjI impI allI; rule andthen_aborted; simp split: sum.split;
          (intro conjI impI allI)?; rule andthen_failed_left;
          simp add: add_education_fails[OF assms(2,3)])+)
  done

lemma bad_skills_aborts:
  assumes "r_skills data = Some skills" "grp \<in> set skills" "length grp < 2"
  shows "aborted (generate_resume E loc data)"
  using assms(1)
  apply (simp add: generate_resume_def Let_def initial_def split: sum.split)
  apply ((intro conjI impI allI; rule andthen_aborted; simp split: sum.split;
          (intro conjI impI allI)?; rule andthen_aborted; simp split: sum.split;
          (intro conjI impI allI)?; rule andthen_failed_left;
          simp add: add_skills_fails[OF assms(2,3)])+)
  done

text \<open>
  Claim C5, as stated: an experience with an empty \<open>highlights\<close> list is among the
  malformed records on which \<open>generate_resume\<close> fails. The loop over an empty list
  runs no iteration: the example record with its highlights emptied is built without
  error.
\<close>

theorem empty_highlights_accepted:
  "j_highlights (example_experience\<lparr>j_highlights := Some []\<rparr>) = Some []
   \<and> \<not> failed (generate_resume example_env ''out''
        (example_resume\<lparr>r_experiences := Some [example_experience\<lparr>j_highlights := Some []\<rparr>]\<rparr>))
   \<and> built (snd (generate_resume example_env ''out''
        (example_resume\<lparr>r_experiences := Some [example_experience\<lparr>j_highlights := Some []\<rparr>]\<rparr>)))
       \<noteq> None"
proof -
  have "valid_resume
      (example_resume\<lparr>r_experiences := Some [example_experience\<lparr>j_highlights := Some []\<rparr>]\<rparr>)"
    by code_simp
  moreover have "texts_accepted example_env
      (example_resume\<lparr>r_experiences := Some [example_experience\<lparr>j_highlights := Some []\<rparr>]\<rparr>)"
    by code_simp
  ultimately show ?thesis
    using example_built[of _ "''out''"] by simp
qed

text \<open>
  Claim C5, amended: an experience whose \<open>titles\<close> list is empty, an education entry
  whose \<open>degrees\<close> list is empty, or a skill group with fewer than two keys makes
  \<open>generate_resume\<close> end in an error (the \<open>IndexError\<close> of the first-element
  access, unless an earlier error comes first), and no document is written. An empty
  \<open>highlights\<close> list is no error: a record that has such a job, is valid and has its
  texts accepted gets all its rows, no bullet row for that job, and the run can only
  fail where the layout library does not build the document.
\<close>

theorem malformed_lists:
  "(r_experiences data = Some experiences \<and> job \<in> set experiences \<and> j_titles job = Some []
      \<longrightarrow> failed (generate_resume E loc data)
          \<and> built (snd (generate_resume E loc data)) = None)
   \<and> (r_education data = Some education \<and> edu \<in> set education \<and> e_degrees edu = Some []
      \<longrightarrow> failed (generate_resume E loc data)
          \<and> built (snd (generate_resume E loc data)) = None)
   \<and> (r_skills data = Some skills \<and> grp \<in> set skills \<and> length grp < 2
      \<longrightarrow> failed (generate_resume E loc data)
          \<and> built (snd (generate_resume E loc data)) = None)
   \<and> (valid_resume data \<and> texts_accepted E data \<and> r_experiences data = Some experiences
        \<and> job' \<in> set experiences \<and> j_highlights job' = Some []
      \<longrightarrow> length (table_data (snd (generate_resume E loc data))) = row_count data
          \<and> (failed (generate_resume E loc data) \<longrightarrow>
               fst (generate_resume E loc data) = Inl RenderError)
          \<and> (build_ok E (generate_doc_template E (the (b_name (the (r_basic data)))) loc)
                (table_data (snd (generate_resume E loc data)))
                (table_styles (snd (generate_resume E loc data)))
               \<longrightarrow> \<not> failed (generate_resume E loc data)
                   \<and> built (snd (generate_resume E loc data)) \<noteq> None))"
proof (intro conjI impI)
  assume "r_experiences data = Some experiences \<and> job \<in> set experiences \<and> j_titles job = Some []"
  then have "aborted (generate_resume E loc data)"
    by (elim conjE) (rule bad_experience_aborts)
  then show "failed (generate_resume E loc data)"
    and "built (snd (generate_resume E loc data)) = None"
    by (simp_all add: aborted_def)
next
  assume "r_education data = Some education \<and> edu \<in> set education \<and> e_degrees edu = Some []"
  then have "aborted (generate_resume E loc data)"
    by (elim conjE) (rule bad_education_aborts)
  then show "failed (generate_resume E loc data)"
    and "built (snd (generate_resume E loc data)) = None"
    by (simp_all add: aborted_def)
next
  assume "r_skills data = Some skills \<and> grp \<in> set skills \<and> length grp < 2"
  then have "aborted (generate_resume E loc data)"
    by (elim conjE) (rule bad_skills_aborts)
  then show "failed (generate_resume E loc data)"
    and "built (snd (generate_resume E loc data)) = None"
    by (simp_all add: aborted_def)
next
  assume h: "valid_resume data \<and> texts_accepted E data \<and> r_experiences data = Some experiences
        \<and> job' \<in> set experiences \<and> j_highlights job' = Some []"
  then have v: "valid_resume data" and t: "texts_accepted E data" by simp_all
  note run = generate_resume_valid[OF v t, of loc]
  show "length (table_data (snd (generate_resume E loc data))) = row_count data"
    using run by simp
  show "fst (generate_resume E loc data) = Inl RenderError"
    if "failed (generate_resume E loc data)"
    using run that by simp
  show "\<not> failed (generate_resume E loc data)"
    if "build_ok E (generate_doc_template E (the (b_name (the (r_basic data)))) loc)
                (table_data (snd (generate_resume E loc data)))
                (table_styles (snd (generate_resume E loc data)))"
    using run that by blast
  show "built (snd (generate_resume E loc data)) \<noteq> None"
    if "build_ok E (generate_doc_template E (the (b_name (the (r_basic data)))) loc)
                (table_data (snd (generate_resume E loc data)))
                (table_styles (snd (generate_resume E loc data)))"
    using run that by blast
qed

theorem malformed_lists_witness:
  "failed (generate_resume example_env ''out''
      (example_resume\<lparr>r_experiences := Some [example_experience\<lparr>j_titles := Some []\<rparr>]\<rparr>))
   \<and> failed (generate_resume example_env ''out''
      (example_resume\<lparr>r_education := Some [\<lparr>e_school = Some ''NTNU'', e_degrees = Some []\<rparr>]\<rparr>))
   \<and> failed (generate_resume example_env ''out''
      (example_resume\<lparr>r_skills := Some [[(''category'', YStr ''Languages'')]]\<rparr>))
   \<and> valid_resume
      (example_resume\<lparr>r_experiences := Some [example_experience\<lparr>j_highlights := Some []\<rparr>]\<rparr>)
   \<and> texts_accepted example_env
      (example_resume\<lparr>r_experiences := Some [example_experience\<lparr>j_highlights := Some []\<rparr>]\<rparr>)
   \<and> length (table_data (snd (generate_resume example_env ''out''
      (example_resume\<lparr>r_experiences := Some [example_experience\<lparr>j_highlights := Some []\<rparr>]\<rparr>))))
      = 11
   \<and> \<not> failed (generate_resume example_env ''out''
      (example_resume\<lparr>r_experiences := Some [example_experience\<lparr>j_highlights := Some []\<rparr>]\<rparr>))"
proof -
  let ?job = "example_experience\<lparr>j_titles := Some []\<rparr>"
  let ?edu = "\<lparr>e_school = Some ''NTNU'', e_degrees = Some []\<rparr>"
  let ?grp = "[(''category'', YStr ''Languages'')]"
  let ?ok = "example_experience\<lparr>j_highlights := Some []\<rparr>"
  let ?data = "example_resume\<lparr>r_experiences := Some [?ok]\<rparr>"
  have a: "r_experiences (example_resume\<lparr>r_experiences := Some [?job]\<rparr>) = Some [?job]
      \<and> ?job \<in> set [?job] \<and> j_titles ?job = Some []"
    by simp
  have b: "r_education (example_resume\<lparr>r_education := Some [?edu]\<rparr>) = Some [?edu]
      \<and> ?edu \<in> set [?edu] \<and> e_degrees ?edu = Some []"
    by simp
  have c: "r_skills (example_resume\<lparr>r_skills := Some [?grp]\<rparr>) = Some [?grp]
      \<and> ?grp \<in> set [?grp] \<and> length ?grp < 2"
    by simp
  have v: "valid_resume ?data" by code_simp
  have t: "texts_accepted example_env ?data" by code_simp
  have n: "row_count ?data = 11" by code_simp
  have d: "valid_resume ?data \<and> texts_accepted example_env ?data
      \<and> r_experiences ?data = Some [?ok] \<and> ?ok \<in> set [?ok] \<and> j_highlights ?ok = Some []"
    using v t by simp
  have c1: "failed (generate_resume example_env ''out'' (example_resume\<lparr>r_experiences := Some [?job]\<rparr>))"
    using a malformed_lists [of "example_resume\<lparr>r_experiences := Some [?job]\<rparr>" "[?job]" ?job
        example_env "''out''"]
    by blast
  have c2: "failed (generate_resume example_env ''out'' (example_resume\<lparr>r_education := Some [?edu]\<rparr>))"
    using b malformed_lists [of "example_resume\<lparr>r_education := Some [?edu]\<rparr>" _ _
        example_env "''out''" "[?edu]" ?edu]
    by blast
  have c3: "failed (generate_resume example_env ''out'' (example_resume\<lparr>r_skills := Some [?grp]\<rparr>))"
    using c malformed_lists [of "example_resume\<lparr>r_skills := Some [?grp]\<rparr>" _ _
        example_env "''out''" _ _ "[?grp]" ?grp]
    by blast
  note run = malformed_lists [of ?data "[?ok]" _ example_env "''out''" _ _ _ _ ?ok,
      THEN conjunct2, THEN conjunct2, THEN conjunct2, rule_format, OF d]
  have c4: "length (table_data (snd (generate_resume example_env ''out'' ?data))) = 11"
    using run [THEN conjunct1] unfolding n .
  have c5: "\<not> failed (generate_resume example_env ''out'' ?data)"
    using run [THEN conjunct2, THEN conjunct2] by (simp add: example_env_simps)
  show ?thesis
    by (intro conjI c1 c2 c3 v t c4 c5)
qed

section \<open>The invariant of rows and directives\<close>

lemma kept_simps [simp]:
  "kept (Inl e, st) = consistent st"
  "kept (Inr r, st) = (consistent st \<and> r = int (length (table_data st)))"
  by (simp_all add: kept_def)

lemma rows_in_range_mono: "rows_in_range n d \<Longrightarrow> n \<le> m \<Longrightarrow> rows_in_range m d"
  by (auto simp: rows_in_range_def)

lemma list_all_rows_in_range_mono:
  "list_all (rows_in_range n) ds \<Longrightarrow> n \<le> m \<Longrightarrow> list_all (rows_in_range m) ds"
  by (auto simp: list_all_iff intro: rows_in_range_mono)

lemma consistent_add_table_row:
  assumes "consistent st" and "r = int (length (table_data st))"
    and "list_all (paragraph_ok E) (map fst cs)"
  shows "consistent (snd (add_table_row E r cs sp pad b st))"
proof -
  have old: "list_all (rows_in_range (Suc (length (table_data st)))) (table_styles st)"
    using assms(1) by (auto simp: consistent_def intro: list_all_rows_in_range_mono)
  show ?thesis
    using assms old by (simp add: consistent_def snapshot_ok_def rows_in_range_def)
qed

lemma consistent_first_row:
  assumes "table_data st = []" and "history st = []"
    and "list_all (rows_in_range 1) (table_styles st)"
    and "list_all (paragraph_ok E) (map fst cs)"
  shows "consistent (snd (add_table_row E 0 cs sp pad b st))"
  using assms by (simp add: consistent_def snapshot_ok_def rows_in_range_def)

lemma consistent_append_section:
  assumes "consistent st" and "k < int (length (table_data st))"
  shows "consistent (snd (append_section_table_style k st))"
  using assms by (simp add: consistent_def snapshot_ok_def rows_in_range_def)

lemma consistent_built [simp]: "consistent (st\<lparr>built := x\<rparr>) = consistent st"
  by (simp add: consistent_def)

lemma kept_add_table_row:
  assumes "consistent st" and "r = int (length (table_data st))"
  shows "kept (add_table_row E r cs sp pad b st)"
proof (cases "list_all (paragraph_ok E) (map fst cs)")
  case True
  then have "kept (Inr (r + 1), snd (add_table_row E r cs sp pad b st))"
    using assms by (simp add: consistent_add_table_row)
  then show ?thesis by (simp only: add_table_row_accepted[OF True, symmetric])
next
  case False
  then show ?thesis using assms(1) by (simp add: add_table_row_rejected)
qed

text \<open>Sequencing keeps the invariant, for a step that threads the row index.\<close>

lemma kept_andthen:
  assumes "kept (m st)"
    and "\<And>r' st'. consistent st' \<Longrightarrow> r' = int (length (table_data st')) \<Longrightarrow> kept (f r' st')"
  shows "kept (andthen m f st)"
proof (cases "m st")
  case (Pair res st')
  with assms show ?thesis
    by (cases res) (simp_all add: andthen_def)
qed

lemma kept_eval:
  assumes "consistent st" and "\<And>v. kept (f v st)"
  shows "kept (andthen (eval m) f st)"
  using assms by (cases m) simp_all

lemma kept_section_style:
  assumes "consistent st" and "r = int (length (table_data st))" and "table_data st \<noteq> []"
    and "\<And>st'. consistent st' \<Longrightarrow> r = int (length (table_data st')) \<Longrightarrow> kept (f () st')"
  shows "kept (andthen (append_section_table_style (r - 1)) f st)"
proof -
  have "consistent (snd (append_section_table_style (r - 1) st))"
    using assms(1-3) by (intro consistent_append_section) simp_all
  then show ?thesis using assms(2) by (simp add: assms(4))
qed

lemma kept_for_loop:
  assumes "\<And>x r st. consistent st \<Longrightarrow> r = int (length (table_data st)) \<Longrightarrow> kept (body r x st)"
    and "consistent st" and "r = int (length (table_data st))"
  shows "kept (for_loop xs body r st)"
  using assms(2,3)
proof (induction xs arbitrary: r st)
  case Nil
  then show ?case by simp
next
  case (Cons x xs)
  from assms(1)[OF Cons.prems] have k: "kept (body r x st)" .
  show ?case
    unfolding for_loop.simps using k by (rule kept_andthen) (rule Cons.IH)
qed

lemma kept_highlight_body:
  "consistent st \<Longrightarrow> r = int (length (table_data st)) \<Longrightarrow> kept (highlight_body E hs r p st)"
  by (cases p) (simp add: highlight_body_def Let_def kept_add_table_row)

lemma kept_experience_body:
  assumes "consistent st" and "r = int (length (table_data st))"
  shows "kept (experience_body E r p st)"
proof (cases p)
  case (Pair idx job)
  show ?thesis
    unfolding Pair experience_body_def prod.case
    using assms
    by (intro kept_eval kept_andthen kept_add_table_row kept_for_loop kept_highlight_body)
qed

lemma kept_education_body:
  assumes "consistent st" and "r = int (length (table_data st))"
  shows "kept (education_body E r edu st)"
  unfolding education_body_def
  using assms by (intro kept_eval kept_add_table_row)

lemma kept_skill_body:
  assumes "consistent st" and "r = int (length (table_data st))"
  shows "kept (skill_body E r grp st)"
  unfolding skill_body_def Let_def
  using assms by (intro kept_eval kept_add_table_row)

lemma kept_section:
  assumes "consistent st" and "r = int (length (table_data st))"
    and "\<And>r' st'. consistent st' \<Longrightarrow> r' = int (length (table_data st')) \<Longrightarrow> kept (f r' st')"
  shows "kept (andthen (add_table_row E r cs sp pad b)
           (\<lambda>r'. andthen (append_section_table_style (r' - 1)) (\<lambda>_. f r')) st)"
proof (cases "list_all (paragraph_ok E) (map fst cs)")
  case True
  let ?st = "snd (add_table_row E r cs sp pad b st)"
  have c: "consistent ?st"
    using assms(1,2) True by (rule consistent_add_table_row)
  have n: "r + 1 = int (length (table_data ?st))" "table_data ?st \<noteq> []"
    using assms(2) True by simp_all
  have "kept (andthen (append_section_table_style (r + 1 - 1)) (\<lambda>_. f (r + 1)) ?st)"
    using c n by (rule kept_section_style) (rule assms(3))
  then show ?thesis using True by simp
next
  case False
  then show ?thesis using assms(1) by simp
qed

lemma kept_add_experiences:
  assumes "consistent st" and "r = int (length (table_data st))"
  shows "kept (add_experiences E r xs st)"
  unfolding add_experiences_def
  using assms by (rule kept_section) (rule kept_for_loop[OF kept_experience_body])

lemma kept_add_education:
  assumes "consistent st" and "r = int (length (table_data st))"
  shows "kept (add_education E r xs st)"
  unfolding add_education_def
  using assms by (rule kept_section) (rule kept_for_loop[OF kept_education_body])

lemma kept_add_skills:
  assumes "consistent st" and "r = int (length (table_data st))"
  shows "kept (add_skills E r xs st)"
  unfolding add_skills_def
  using assms by (rule kept_section) (rule kept_for_loop[OF kept_skill_body])

text \<open>Sequencing keeps the invariant of the accumulator, whatever the step returns.\<close>

lemma consistent_andthen:
  assumes "kept (m st)"
    and "\<And>r' st'. consistent st' \<Longrightarrow> r' = int (length (table_data st')) \<Longrightarrow>
           consistent (snd (f r' st'))"
  shows "consistent (snd (andthen m f st))"
proof (cases "m st")
  case (Pair res st')
  with assms show ?thesis
    by (cases res) (simp_all add: andthen_def)
qed

lemma consistent_eval:
  assumes "consistent st" and "\<And>v. consistent (snd (f v st))"
  shows "consistent (snd (andthen (eval m) f st))"
  using assms by (cases m) simp_all

lemma consistent_section_style:
  assumes "consistent st" and "r = int (length (table_data st))"
    and "\<And>st'. consistent st' \<Longrightarrow> r = int (length (table_data st')) \<Longrightarrow>
           consistent (snd (f () st'))"
  shows "consistent (snd (andthen (append_section_table_style (r - 1)) f st))"
proof -
  have "consistent (snd (append_section_table_style (r - 1) st))"
    using assms(1,2) by (intro consistent_append_section) simp_all
  then show ?thesis using assms(2) by (simp add: assms(3))
qed

lemma consistent_doc_build:
  assumes "consistent st"
  shows "consistent (snd (andthen (doc_build E p) (\<lambda>_. ret v) st))"
  using assms by simp

lemma settled_first_row:
  assumes "table_data st = []" and "history st = []"
    and "list_all (rows_in_range 1) (table_styles st)"
    and "\<And>st'. consistent st' \<Longrightarrow> 1 = int (length (table_data st')) \<Longrightarrow>
           consistent (snd (f 1 st'))"
  shows "settled (snd (andthen (add_table_row E 0 cs sp pad b) f st))"
proof (cases "list_all (paragraph_ok E) (map fst cs)")
  case True
  have "consistent (snd (add_table_row E 0 cs sp pad b st))"
    using assms(1-3) True by (rule consistent_first_row)
  moreover have "1 = int (length (table_data (snd (add_table_row E 0 cs sp pad b st))))"
    using assms(1) True by simp
  ultimately have "consistent (snd (f 1 (snd (add_table_row E 0 cs sp pad b st))))"
    by (rule assms(4))
  then show ?thesis using True by (simp add: settled_def)
next
  case False
  then show ?thesis using assms(1,2) by (simp add: settled_def)
qed

lemma settled_initial [simp]: "settled initial"
  by (simp add: settled_def initial_def)

lemma generate_resume_settled:
  assumes "presets_in_range E"
  shows "settled (snd (generate_resume E loc data))"
  using assms
  apply (simp add: generate_resume_def Let_def split: sum.split split del: if_split
      del: andthen_add_table_row)
  apply (intro conjI impI allI)
  apply (rule settled_first_row)
     apply (simp add: initial_def)
    apply (simp add: initial_def)
   apply (simp add: initial_def presets_in_range_def)
  apply ((rule consistent_andthen consistent_eval consistent_section_style
           consistent_doc_build kept_add_table_row kept_add_experiences kept_add_education
           kept_add_skills | assumption)+)
  done

lemma example_texts_ok:
  "paragraph_ok example_env
     (''<font name='' @ [CHR 0x27] @ ''Bold'' @ [CHR 0x27] @ ''>'' @ ''NTNU''
        @ ''</font>, '' @ ''BSc, MSc'')"
  "paragraph_ok example_env
     (''<font name='' @ [CHR 0x27] @ ''Bold'' @ [CHR 0x27] @ ''>'' @ ''Languages''
        @ ''</font>: '' @ ''Go, Rust'')"
  by code_simp+

lemma example_history:
  "map fst (history (snd (generate_resume example_env ''out'' example_resume))) =
     [Some 1, Some 2, Some 3, None, Some 4, Some 5, None, Some 6, Some 7, Some 8,
      Some 9, None, Some 10, Some 11, None, Some 12]"
  using example_texts_ok
  by (simp add: generate_resume_def add_experiences_def add_education_def add_skills_def
      experience_body_def education_body_def skill_body_def highlight_body_def
      enumerate_list_def example_resume_def example_basic_def example_experience_def
      example_env_simps Let_def initial_def index_def group_getitem_def andthen_assoc andthen_ret
      clean_url_def paragraph_ok_plain plain_text_def)

text \<open>
  Before the first row is appended the accumulator holds the preset directives and no
  row: where the constructor of the name cell raises, that is the state left behind.
\<close>

lemma presets_before_first_row:
  "fst (generate_resume example_env ''out''
      (example_resume\<lparr>r_basic := Some (example_basic\<lparr>b_name := Some ''a <b> c''\<rparr>)\<rparr>)) =
     Inl ValueError
   \<and> table_data (snd (generate_resume example_env ''out''
      (example_resume\<lparr>r_basic := Some (example_basic\<lparr>b_name := Some ''a <b> c''\<rparr>)\<rparr>))) = []
   \<and> table_styles (snd (generate_resume example_env ''out''
      (example_resume\<lparr>r_basic := Some (example_basic\<lparr>b_name := Some ''a <b> c''\<rparr>)\<rparr>))) =
     [Directive ''ALIGN'' (0, 0) (- 1, - 1) [StrV ''LEFT'']]"
proof -
  have "\<not> paragraph_ok example_env ''a <b> c''"
    by code_simp
  then show ?thesis
    by (simp add: generate_resume_def example_resume_def example_basic_def
        example_env_simps Let_def initial_def clean_url_def)
qed

text \<open>
  Claim C7: provided the preset directives of \<open>resume_pdf_styles\<close> (\<open>DEBUG_STYLE\<close>
  and \<open>DOCUMENT_ALIGNMENT\<close>, which are not among the sources) have row coordinates
  below 1, at every return of \<open>_add_table_row\<close> and of
  \<open>_append_section_table_style\<close> during \<open>generate_resume\<close> every directive in
  \<open>table_styles\<close> has row coordinates below \<open>len(table_data)\<close>, and the index that
  \<open>_add_table_row\<close> returns is \<open>len(table_data)\<close>; the same holds of the directives
  in the accumulator that the run leaves behind, whether it returns or raises, once a
  row has been appended.
\<close>

theorem styles_refer_to_appended_rows:
  assumes "presets_in_range E"
  shows "list_all snapshot_ok (history (snd (generate_resume E loc data)))
    \<and> (table_data (snd (generate_resume E loc data)) \<noteq> [] \<longrightarrow>
         list_all (rows_in_range (length (table_data (snd (generate_resume E loc data)))))
           (table_styles (snd (generate_resume E loc data))))"
  using generate_resume_settled[OF assms, of loc data]
  by (auto simp: settled_def consistent_def)

theorem styles_refer_to_appended_rows_witness:
  "presets_in_range example_env
   \<and> map fst (history (snd (generate_resume example_env ''out'' example_resume))) =
       [Some 1, Some 2, Some 3, None, Some 4, Some 5, None, Some 6, Some 7, Some 8,
        Some 9, None, Some 10, Some 11, None, Some 12]
   \<and> list_all snapshot_ok (history (snd (generate_resume example_env ''out'' example_resume)))
   \<and> length (table_data (snd (generate_resume example_env ''out'' example_resume))) = 12
   \<and> list_all (rows_in_range 12)
       (table_styles (snd (generate_resume example_env ''out'' example_resume)))"
proof -
  have h: "presets_in_range example_env"
    by (simp add: presets_in_range_def example_env_simps rows_in_range_def)
  have n: "length (table_data (snd (generate_resume example_env ''out'' example_resume))) = 12"
    using example_built[OF valid_example texts_example, of "''out''"]
    by (simp add: row_count_example)
  then have "table_data (snd (generate_resume example_env ''out'' example_resume)) \<noteq> []"
    by auto
  with h n styles_refer_to_appended_rows [OF h, of "''out''" example_resume] example_history
  show ?thesis by simp
qed

end
